theory Spec2Isabelle
  imports Complex_Main "HOL-Library.Monad_Syntax" "HOL-Library.Log_Nat"
begin

section \<open>The collaborators of the nonholonomic car demo\<close>

text \<open>
  The demo program \<^verbatim>\<open>examples/nonholonomic-car-demo.cpp\<close> supplies the planner with a
  control input set, a goal region, a heuristic, a cost functional and an obstacle
  checker. This theory embeds those five classes and proves their contracts.

  Conventions of the embedding:
  \<^item> a C++ \<^verbatim>\<open>double\<close> is a \<^typ>\<open>real\<close>, and every arithmetic operation on doubles rounds its
    exact result to the nearest binary64 number, ties to even, as IEEE 754 arithmetic
    does, each operation on its own (no fused multiply-add, no wider intermediate
    format); comparisons and \<^verbatim>\<open>std::max\<close> are exact;
  \<^item> the values are the finite doubles: a result beyond the largest finite double, an
    infinity or a NaN has no counterpart here;
  \<^item> a C++ \<^verbatim>\<open>int\<close> is an \<^typ>\<open>int\<close>; the only arithmetic on one is the loop counter
    \<^verbatim>\<open>i++\<close> under the guard \<^verbatim>\<open>i < resolution\<close>, which cannot overflow; the conversion
    of an \<^verbatim>\<open>int\<close> to \<^verbatim>\<open>double\<close> is exact, an \<^verbatim>\<open>int\<close> having 32 bits and the
    significand of a double 53;
  \<^item> a \<^verbatim>\<open>std::valarray<double>\<close> is a \<^typ>\<open>real list\<close>; reading an element past the end
    is undefined behaviour in C++ and is the result \<^term>\<open>None\<close> here;
  \<^item> a class is a record of its data members; a member function that is not declared
    \<^verbatim>\<open>const\<close> takes the object and returns it together with its result.
\<close>

subsection \<open>Double arithmetic\<close>

text \<open>
  The binary exponent of a number that is not 0: \<open>2\<^sup>e \<le> \<bar>x\<bar> < 2\<^sup>e\<^sup>+\<^sup>1\<close> for \<open>e = expo x\<close>. It is
  read off the bit length of the integer part of \<open>\<bar>x\<bar>\<close>, or of \<open>1 / \<bar>x\<bar>\<close> below 1.
\<close>

definition expo :: "real \<Rightarrow> int" where
  "expo x = (if 1 \<le> \<bar>x\<bar> then bitlen \<lfloor>\<bar>x\<bar>\<rfloor> - 1 else - bitlen (\<lceil>1 / \<bar>x\<bar>\<rceil> - 1))"

text \<open>Rounding to the nearest integer, a tie to the even one.\<close>

definition round_even :: "real \<Rightarrow> int" where
  "round_even y =
     (let f = \<lfloor>y\<rfloor>
      in if y - of_int f < 1 / 2 then f
         else if 1 / 2 < y - of_int f then f + 1
         else if even f then f else f + 1)"

text \<open>
  Rounding to binary64: 53 significant bits, so the last place of \<open>x\<close> is \<open>2\<^sup>e\<^sup>-\<^sup>5\<^sup>2\<close>, and
  \<open>2\<^sup>-\<^sup>1\<^sup>0\<^sup>7\<^sup>4\<close> in the subnormal range.
\<close>

definition rd :: "real \<Rightarrow> real" where
  "rd x = (let e = max (expo x - 52) (- 1074) in of_int (round_even (x / 2 powi e)) * 2 powi e)"

text \<open>The operations of the demo: \<^verbatim>\<open>+\<close>, \<^verbatim>\<open>-\<close>, \<^verbatim>\<open>*\<close>, \<^verbatim>\<open>/\<close> and \<^verbatim>\<open>sqrt\<close>, which the demo
  applies to a sum of squares and to 0.25, never to a negative number.\<close>

definition dadd :: "real \<Rightarrow> real \<Rightarrow> real" where
  "dadd x y = rd (x + y)"

definition dsub :: "real \<Rightarrow> real \<Rightarrow> real" where
  "dsub x y = rd (x - y)"

definition dmul :: "real \<Rightarrow> real \<Rightarrow> real" where
  "dmul x y = rd (x * y)"

definition ddiv :: "real \<Rightarrow> real \<Rightarrow> real" where
  "ddiv x y = rd (x / y)"

definition dsqrt :: "real \<Rightarrow> real" where
  "dsqrt x = rd (sqrt x)"

text \<open>\<^verbatim>\<open>M_PI\<close> of \<^verbatim>\<open>math.h\<close>, the double nearest to \<open>\<pi>\<close>.\<close>

definition M_PI :: real where
  "M_PI = 884279719003555 / 2 ^ 48"

subsection \<open>Library types used by the demo\<close>

text \<open>
  Modelled from the spec: \<^verbatim>\<open>glc::InterpolatingPolynomial\<close> is declared in
  \<^verbatim>\<open>glc_planner_core.h\<close>, which is not part of the sources. The trajectory spline
  contract gives its four observers: \<^verbatim>\<open>at(t) -> state\<close>, \<^verbatim>\<open>initialTime() -> real\<close>,
  \<^verbatim>\<open>numberOfIntervals() -> integer\<close> and \<^verbatim>\<open>intervalLength() -> real\<close>. They are taken
  as the fields of a record, so every statement below holds for any spline.
\<close>

record InterpolatingPolynomial =
  initialTime :: real
  numberOfIntervals :: int
  intervalLength :: real
  at_time :: "real \<Rightarrow> real list"

text \<open>
  Modelled from the spec: \<^verbatim>\<open>glc::sqr\<close> comes from the same missing header; the demo
  uses it for the squares of a squared planar distance. It is one multiplication.
\<close>

definition sqr :: "real \<Rightarrow> real" where
  "sqr x = dmul x x"

text \<open>\<^verbatim>\<open>std::valarray::operator[]\<close>: defined for indices below the size only.\<close>

definition valarray_at :: "real list \<Rightarrow> nat \<Rightarrow> real option" where
  "valarray_at v i = (if i < length v then Some (v ! i) else None)"

subsection \<open>Discretization of control inputs: \<^verbatim>\<open>CarControlInputs\<close>\<close>





subsection \<open>Goal checking: \<^verbatim>\<open>Sphericalgoal\<close>\<close>

record Sphericalgoal =
  radius_sqr :: real
  center :: "real list"
  resolution :: int

definition new_Sphericalgoal :: "real \<Rightarrow> real list \<Rightarrow> int \<Rightarrow> Sphericalgoal" where
  "new_Sphericalgoal goal_radius_sqr goal_center res =
     \<lparr>radius_sqr = goal_radius_sqr, center = goal_center, resolution = res\<rparr>"

text \<open>
  The body of \<^verbatim>\<open>for(int i=0;i<resolution;i++)\<close> in \<^verbatim>\<open>inGoal\<close>. The loop carries the
  counter \<open>i\<close> and the out-parameter \<open>time\<close>, a running sum in double arithmetic; the
  result is the returned flag, the final value of \<open>time\<close> and the object.
\<close>

function inGoal_loop ::
  "Sphericalgoal \<Rightarrow> InterpolatingPolynomial \<Rightarrow> real \<Rightarrow> int \<Rightarrow> real
     \<Rightarrow> (bool \<times> real \<times> Sphericalgoal) option"
  where
  "inGoal_loop this traj dt i time =
     (if i < resolution this then
        (let time = dadd time dt;
             state = at_time traj time
         in do {
              s0 \<leftarrow> valarray_at state 0;
              c0 \<leftarrow> valarray_at (center this) 0;
              s1 \<leftarrow> valarray_at state 1;
              c1 \<leftarrow> valarray_at (center this) 1;
              if dadd (sqr (dsub s0 c0)) (sqr (dsub s1 c1)) < radius_sqr this
              then Some (True, time, this)
              else inGoal_loop this traj dt (i + 1) time
            })
      else Some (False, time, this))"
  by pat_completeness auto
termination
  by (relation "measure (\<lambda>(this, traj, dt, i, time). nat (resolution this - i))") auto

declare inGoal_loop.simps [simp del]

text \<open>
  \<^verbatim>\<open>bool inGoal(traj, double& time)\<close>. The caller's value of \<open>time\<close> is overwritten by
  \<^verbatim>\<open>traj->initialTime()\<close> before anything reads it. The step is
  \<^verbatim>\<open>(traj->numberOfIntervals()*traj->intervalLength())/resolution\<close>, with both integers
  converted to double. For \<open>resolution = 0\<close> the quotient is not a finite number in C++;
  the loop then runs no iteration and never reads it.
\<close>

definition inGoal ::
  "Sphericalgoal \<Rightarrow> InterpolatingPolynomial \<Rightarrow> real \<Rightarrow> (bool \<times> real \<times> Sphericalgoal) option"
  where
  "inGoal this traj time =
     (let time = initialTime traj;
          dt = ddiv (dmul (real_of_int (numberOfIntervals traj)) (intervalLength traj))
                 (real_of_int (resolution this))
      in inGoal_loop this traj dt 0 time)"

subsection \<open>Heuristic: \<^verbatim>\<open>EuclideanHeuristic\<close>\<close>

record EuclideanHeuristic =
  radius :: real
  goal :: "real list"

definition new_EuclideanHeuristic :: "real list \<Rightarrow> real \<Rightarrow> EuclideanHeuristic" where
  "new_EuclideanHeuristic g r = \<lparr>radius = r, goal = g\<rparr>"

text \<open>\<^verbatim>\<open>double costToGo(state) const\<close>: the planar distance to the goal centre, offset by the
  goal radius and clamped at 0.\<close>

definition costToGo :: "EuclideanHeuristic \<Rightarrow> real list \<Rightarrow> real option" where
  "costToGo this state =
     do {
       g0 \<leftarrow> valarray_at (goal this) 0;
       s0 \<leftarrow> valarray_at state 0;
       g1 \<leftarrow> valarray_at (goal this) 1;
       s1 \<leftarrow> valarray_at state 1;
       Some (max 0 (dsub (dsqrt (dadd (sqr (dsub g0 s0)) (sqr (dsub g1 s1)))) (radius this)))
     }"

subsection \<open>Cost function: \<^verbatim>\<open>ArcLength\<close>\<close>

record ArcLength =
  sample_resolution :: real

definition new_ArcLength :: "int \<Rightarrow> ArcLength" where
  "new_ArcLength n = \<lparr>sample_resolution = real_of_int n\<rparr>"

text \<open>
  \<^verbatim>\<open>double cost(traj, control, t0, tf) const\<close> returns
  \<^verbatim>\<open>traj->numberOfIntervals()*traj->intervalLength()\<close>.
\<close>

definition cost ::
  "ArcLength \<Rightarrow> InterpolatingPolynomial \<Rightarrow> InterpolatingPolynomial \<Rightarrow> real \<Rightarrow> real \<Rightarrow> real"
  where
  "cost this traj control t0 tf = dmul (real_of_int (numberOfIntervals traj)) (intervalLength traj)"

subsection \<open>State constraints: \<^verbatim>\<open>PlanarDemoObstacles\<close>\<close>

record PlanarDemoObstacles =
  resolution :: int
  center1 :: "real list"
  center2 :: "real list"

definition new_PlanarDemoObstacles :: "int \<Rightarrow> PlanarDemoObstacles" where
  "new_PlanarDemoObstacles res = \<lparr>resolution = res, center1 = [3, 2], center2 = [6, 8]\<rparr>"

text \<open>
  The loop of \<^verbatim>\<open>collisionFree\<close>. The condition \<^verbatim>\<open>A <= 4.0 or B <= 4.0\<close> evaluates its
  second operand only when the first is false.
\<close>

function collisionFree_loop ::
  "PlanarDemoObstacles \<Rightarrow> InterpolatingPolynomial \<Rightarrow> real \<Rightarrow> int \<Rightarrow> real
     \<Rightarrow> (bool \<times> PlanarDemoObstacles) option"
  where
  "collisionFree_loop this traj dt i t =
     (if i < resolution this then
        (let t = dadd t dt;
             state = at_time traj t
         in do {
              s0 \<leftarrow> valarray_at state 0;
              a0 \<leftarrow> valarray_at (center1 this) 0;
              s1 \<leftarrow> valarray_at state 1;
              a1 \<leftarrow> valarray_at (center1 this) 1;
              if dadd (sqr (dsub s0 a0)) (sqr (dsub s1 a1)) \<le> 4
              then Some (False, this)
              else do {
                s0 \<leftarrow> valarray_at state 0;
                b0 \<leftarrow> valarray_at (center2 this) 0;
                s1 \<leftarrow> valarray_at state 1;
                b1 \<leftarrow> valarray_at (center2 this) 1;
                if dadd (sqr (dsub s0 b0)) (sqr (dsub s1 b1)) \<le> 4
                then Some (False, this)
                else collisionFree_loop this traj dt (i + 1) t
              }
            })
      else Some (True, this))"
  by pat_completeness auto
termination
  by (relation "measure (\<lambda>(this, traj, dt, i, t). nat (resolution this - i))") auto

declare collisionFree_loop.simps [simp del]

definition collisionFree ::
  "PlanarDemoObstacles \<Rightarrow> InterpolatingPolynomial \<Rightarrow> (bool \<times> PlanarDemoObstacles) option"
  where
  "collisionFree this traj =
     (let t = initialTime traj;
          dt = ddiv (dmul (real_of_int (numberOfIntervals traj)) (intervalLength traj))
                 (real_of_int (resolution this))
      in collisionFree_loop this traj dt 0 t)"

subsection \<open>The planning query of \<^verbatim>\<open>main\<close>\<close>

text \<open>
  Modelled from the spec: \<^verbatim>\<open>glc::Parameters\<close> is declared in the missing header; the
  fields are those of the configuration object of the spec, with the values \<^verbatim>\<open>main\<close>
  assigns.
\<close>

record Parameters =
  res :: int
  control_dim :: int
  state_dim :: int
  depth_scale :: int
  dt_max :: real
  max_iter :: int
  time_scale :: real
  partition_scale :: real
  x0 :: "real list"

definition alg_params :: Parameters where
  "alg_params = \<lparr>res = 21, control_dim = 2, state_dim = 3, depth_scale = 100, dt_max = 5,
                  max_iter = 50000, time_scale = 20, partition_scale = 60,
                  x0 = [0, 0, ddiv M_PI 2]\<rparr>"


definition performance_objective :: ArcLength where
  "performance_objective = new_ArcLength 4"

definition goal_radius_sqr :: real where
  "goal_radius_sqr = 0.25"

definition goal_center :: "real list" where
  "goal_center = [10, 10]"

definition demo_goal :: Sphericalgoal where
  "demo_goal = new_Sphericalgoal goal_radius_sqr goal_center 10"

definition obstacles :: PlanarDemoObstacles where
  "obstacles = new_PlanarDemoObstacles 10"

definition heuristic :: EuclideanHeuristic where
  "heuristic = new_EuclideanHeuristic goal_center (dsqrt goal_radius_sqr)"

subsection \<open>Concrete segments\<close>

text \<open>
  The car driven along the \<open>x\<close> axis at unit speed with heading 0: at time \<open>t\<close> its state
  is \<open>(t, 0, 0)\<close>. This is a solution of the demo's flow for the control \<open>(1, 0)\<close>; the
  theorems below are instantiated at it.
\<close>

definition x_axis_segment :: "real \<Rightarrow> int \<Rightarrow> real \<Rightarrow> InterpolatingPolynomial" where
  "x_axis_segment t0 n len =
     \<lparr>initialTime = t0, numberOfIntervals = n, intervalLength = len, at_time = (\<lambda>t. [t, 0, 0])\<rparr>"


text \<open>A segment that jumps: the state is \<open>a\<close> before the instant \<open>T\<close>, \<open>b\<close> at it and \<open>c\<close>
  after it.\<close>

definition jump_segment ::
  "real \<Rightarrow> int \<Rightarrow> real \<Rightarrow> real \<Rightarrow> real list \<Rightarrow> real list \<Rightarrow> real list \<Rightarrow> InterpolatingPolynomial"
  where
  "jump_segment t0 n len T a b c =
     \<lparr>initialTime = t0, numberOfIntervals = n, intervalLength = len,
      at_time = (\<lambda>t. if t < T then a else if t = T then b else c)\<rparr>"


subsection \<open>Notation for the statements\<close>

text \<open>
  The squared planar distance of two vectors as the demo computes it, the step of the
  sampling loops, and the \<open>i\<close>-th sampling instant: the initial time advanced by \<open>i\<close>
  additions of the step, each rounded.
\<close>

abbreviation planar_sq_dist :: "real list \<Rightarrow> real list \<Rightarrow> real" where
  "planar_sq_dist s c \<equiv> dadd (sqr (dsub (s ! 0) (c ! 0))) (sqr (dsub (s ! 1) (c ! 1)))"

abbreviation step :: "InterpolatingPolynomial \<Rightarrow> int \<Rightarrow> real" where
  "step traj r \<equiv>
     ddiv (dmul (real_of_int (numberOfIntervals traj)) (intervalLength traj)) (real_of_int r)"

abbreviation sample_time :: "InterpolatingPolynomial \<Rightarrow> int \<Rightarrow> int \<Rightarrow> real" where
  "sample_time traj r i \<equiv> ((\<lambda>t. dadd t (step traj r)) ^^ nat i) (initialTime traj)"

section \<open>Rounding to binary64\<close>

lemma expo_bounds:
  assumes "x \<noteq> 0"
  shows "2 powi (expo x) \<le> \<bar>x\<bar>" and "\<bar>x\<bar> < 2 powi (expo x + 1)"
proof -
  have "2 powi (expo x) \<le> \<bar>x\<bar> \<and> \<bar>x\<bar> < 2 powi (expo x + 1)"
  proof (cases "1 \<le> \<bar>x\<bar>")
    case True
    let ?m = "\<lfloor>\<bar>x\<bar>\<rfloor>"
    from True have m: "0 < ?m" by simp
    from bitlen_bounds [OF m] have lo: "2 ^ nat (bitlen ?m - 1) \<le> ?m" and hi: "?m < 2 ^ nat (bitlen ?m)"
      by simp_all
    from m have b: "1 \<le> bitlen ?m" by (simp add: bitlen_alt_def)
    have e: "expo x = bitlen ?m - 1" using True by (simp add: expo_def)
    have "real_of_int (2 ^ nat (bitlen ?m - 1)) \<le> real_of_int ?m" using lo by linarith
    also have "\<dots> \<le> \<bar>x\<bar>" by simp
    finally have 1: "2 powi (expo x) \<le> \<bar>x\<bar>"
      using b by (simp add: e power_int_nonneg_exp)
    have "?m + 1 \<le> 2 ^ nat (bitlen ?m)" using hi by linarith
    then have "real_of_int (?m + 1) \<le> real_of_int (2 ^ nat (bitlen ?m))" by linarith
    then have "real_of_int ?m + 1 \<le> 2 ^ nat (bitlen ?m)" by simp
    moreover have "\<bar>x\<bar> < real_of_int ?m + 1" by linarith
    ultimately have "\<bar>x\<bar> < 2 ^ nat (bitlen ?m)" by linarith
    then have 2: "\<bar>x\<bar> < 2 powi (expo x + 1)"
      using b by (simp add: e power_int_nonneg_exp)
    from 1 2 show ?thesis ..
  next
    case False
    let ?y = "1 / \<bar>x\<bar>"
    let ?m = "\<lceil>?y\<rceil> - 1"
    from False assms have y: "1 < ?y" by simp
    then have m: "0 < ?m" by linarith
    have my: "real_of_int ?m < ?y" and ym: "?y \<le> real_of_int ?m + 1" by linarith+
    from bitlen_bounds [OF m] have lo: "2 ^ nat (bitlen ?m - 1) \<le> ?m" and hi: "?m < 2 ^ nat (bitlen ?m)"
      by simp_all
    from m have b: "1 \<le> bitlen ?m" by (simp add: bitlen_alt_def)
    have e: "expo x = - bitlen ?m" using False by (simp add: expo_def)
    have xpos: "0 < \<bar>x\<bar>" using assms by simp
    have "?m + 1 \<le> 2 ^ nat (bitlen ?m)" using hi by linarith
    then have "real_of_int (?m + 1) \<le> real_of_int (2 ^ nat (bitlen ?m))" by linarith
    then have "real_of_int ?m + 1 \<le> 2 ^ nat (bitlen ?m)" by simp
    with ym have "?y \<le> 2 ^ nat (bitlen ?m)" by linarith
    then have "1 \<le> 2 ^ nat (bitlen ?m) * \<bar>x\<bar>"
      using xpos by (simp add: field_simps)
    then have "1 / 2 ^ nat (bitlen ?m) \<le> \<bar>x\<bar>"
      by (simp add: field_simps)
    then have 1: "2 powi (expo x) \<le> \<bar>x\<bar>"
      using b by (simp add: e power_int_minus_divide power_int_nonneg_exp)
    have "real_of_int (2 ^ nat (bitlen ?m - 1)) \<le> real_of_int ?m" using lo by linarith
    then have "2 ^ nat (bitlen ?m - 1) \<le> real_of_int ?m" by simp
    with my have "2 ^ nat (bitlen ?m - 1) < ?y" by linarith
    then have "2 ^ nat (bitlen ?m - 1) * \<bar>x\<bar> < 1"
      using xpos by (simp add: field_simps)
    then have "\<bar>x\<bar> < 1 / 2 ^ nat (bitlen ?m - 1)"
      by (simp add: field_simps)
    moreover have "(2::real) powi (expo x + 1) = 1 / 2 ^ nat (bitlen ?m - 1)"
    proof -
      have "expo x + 1 = - (bitlen ?m - 1)" by (simp add: e)
      then have "(2::real) powi (expo x + 1) = 1 / 2 powi (bitlen ?m - 1)"
        by (simp only: power_int_minus_divide)
      then show ?thesis using b by (simp add: power_int_nonneg_exp)
    qed
    ultimately have 2: "\<bar>x\<bar> < 2 powi (expo x + 1)" by simp
    from 1 2 show ?thesis ..
  qed
  then show "2 powi (expo x) \<le> \<bar>x\<bar>" and "\<bar>x\<bar> < 2 powi (expo x + 1)" by simp_all
qed

lemma round_even_cases:
  "round_even y = \<lfloor>y\<rfloor> \<and> y - of_int \<lfloor>y\<rfloor> \<le> 1 / 2
   \<or> round_even y = \<lfloor>y\<rfloor> + 1 \<and> 1 / 2 \<le> y - of_int \<lfloor>y\<rfloor>"
  by (auto simp: round_even_def Let_def)

lemma round_even_error: "\<bar>of_int (round_even y) - y\<bar> \<le> 1 / 2"
  using round_even_cases [of y] by (auto; linarith)

lemma round_even_of_int [simp]: "round_even (of_int n) = n"
  by (simp add: round_even_def)

lemma round_even_le_int: "y \<le> of_int n \<Longrightarrow> round_even y \<le> n"
proof -
  assume a: "y \<le> of_int n"
  show ?thesis
  proof (cases "y = of_int n")
    case True then show ?thesis by simp
  next
    case False
    with a have "y < of_int n" by simp
    then have "\<lfloor>y\<rfloor> < n" by (simp add: floor_less_iff)
    then show ?thesis using round_even_cases [of y] by auto
  qed
qed

lemma round_even_ge_int: "of_int n \<le> y \<Longrightarrow> n \<le> round_even y"
proof -
  assume "of_int n \<le> y"
  then have "n \<le> \<lfloor>y\<rfloor>" by (simp add: le_floor_iff)
  then show ?thesis using round_even_cases [of y] by auto
qed

lemma round_even_mono: "x \<le> y \<Longrightarrow> round_even x \<le> round_even y"
proof -
  assume xy: "x \<le> y"
  then have f: "\<lfloor>x\<rfloor> \<le> \<lfloor>y\<rfloor>" by (rule floor_mono)
  show ?thesis
  proof (cases "\<lfloor>x\<rfloor> = \<lfloor>y\<rfloor>")
    case False
    with f have "\<lfloor>x\<rfloor> + 1 \<le> \<lfloor>y\<rfloor>" by simp
    then show ?thesis using round_even_cases [of x] round_even_cases [of y] by auto
  next
    case True
    then show ?thesis using xy by (auto simp: round_even_def Let_def)
  qed
qed

lemma round_even_minus: "round_even (- y) = - round_even y"
proof (cases "y = of_int \<lfloor>y\<rfloor>")
  case True
  then obtain n where "y = of_int n" ..
  then show ?thesis by (simp flip: of_int_minus)
next
  case False
  then have c: "\<lceil>y\<rceil> = \<lfloor>y\<rfloor> + 1" by (metis ceiling_altdef of_int_floor_cancel)
  have f: "\<lfloor>- y\<rfloor> = - \<lfloor>y\<rfloor> - 1" using c by (simp add: floor_minus)
  show ?thesis
    by (auto simp: round_even_def Let_def f)
qed

lemma pow2_less_cancel:
  assumes "(2::real) powi m < 2 powi n"
  shows "m < n"
proof (rule ccontr)
  assume "\<not> m < n"
  then have "n \<le> m" by simp
  then have "(2::real) powi n \<le> 2 powi m" by (intro power_int_increasing) simp_all
  with assms show False by simp
qed

lemma rd_zero [simp]: "rd 0 = 0"
  using round_even_of_int [of 0] by (simp add: rd_def)

lemma rd_scaled:
  "rd x = of_int (round_even (x / 2 powi (max (expo x - 52) (- 1074)))) * 2 powi (max (expo x - 52) (- 1074))"
  by (simp add: rd_def Let_def)

lemma rd_nonneg: "0 \<le> x \<Longrightarrow> 0 \<le> rd x"
proof -
  assume "0 \<le> x"
  then have "real_of_int 0 \<le> x / 2 powi (max (expo x - 52) (- 1074))" by simp
  then have "0 \<le> round_even (x / 2 powi (max (expo x - 52) (- 1074)))"
    by (rule round_even_ge_int)
  then show ?thesis unfolding rd_scaled by simp
qed

lemma rd_nonpos: "x \<le> 0 \<Longrightarrow> rd x \<le> 0"
proof -
  assume "x \<le> 0"
  then have "x / 2 powi (max (expo x - 52) (- 1074)) \<le> real_of_int 0"
    by (simp add: divide_nonpos_pos)
  then have "round_even (x / 2 powi (max (expo x - 52) (- 1074))) \<le> 0"
    by (rule round_even_le_int)
  then show ?thesis unfolding rd_scaled by (simp add: mult_nonpos_nonneg)
qed

lemma expo_minus [simp]: "expo (- x) = expo x"
  by (simp add: expo_def)

lemma rd_minus: "rd (- x) = - rd x"
  unfolding rd_scaled by (simp add: round_even_minus)

lemma rd_error: "\<bar>rd x - x\<bar> \<le> \<bar>x\<bar> / 2 ^ 53 + 1 / 2 ^ 1075"
proof (cases "x = 0")
  case True
  then show ?thesis by simp
next
  case False
  let ?e = "max (expo x - 52) (- 1074)"
  let ?p = "(2::real) powi ?e"
  have p: "0 < ?p" by simp
  have "rd x - x = (of_int (round_even (x / ?p)) - x / ?p) * ?p"
    unfolding rd_scaled using p by (simp add: algebra_simps)
  then have "\<bar>rd x - x\<bar> = \<bar>of_int (round_even (x / ?p)) - x / ?p\<bar> * ?p"
    using p by (simp add: abs_mult)
  also have "\<dots> \<le> 1 / 2 * ?p"
    using round_even_error [of "x / ?p"] p by (intro mult_right_mono) simp_all
  finally have half: "\<bar>rd x - x\<bar> \<le> ?p / 2" by simp
  show ?thesis
  proof (cases "- 1074 \<le> expo x - 52")
    case True
    then have "?e = expo x - 52" by simp
    moreover have "(2::real) powi (expo x - 52) = 2 powi (expo x) / 2 powi 52"
      by (rule power_int_diff) simp
    ultimately have "?p = 2 powi (expo x) / 2 ^ 52" by simp
    also have "\<dots> \<le> \<bar>x\<bar> / 2 ^ 52"
      using expo_bounds(1) [OF False] by (simp add: divide_right_mono)
    finally have "?p / 2 \<le> \<bar>x\<bar> / 2 ^ 53" by simp
    moreover have "(0::real) \<le> 1 / 2 ^ 1075" by simp
    ultimately show ?thesis using half by linarith
  next
    case False
    then have "?p = 2 powi (- 1074)" by (simp add: max_def)
    then have "?p / 2 = 1 / 2 ^ 1075" by (simp add: power_int_minus_divide)
    with half have "\<bar>rd x - x\<bar> \<le> 1 / 2 ^ 1075" by (simp only:)
    moreover have "0 \<le> \<bar>x\<bar> / 2 ^ 53" by simp
    ultimately show ?thesis by linarith
  qed
qed

lemma expo_mono:
  assumes "0 < x" "x \<le> y"
  shows "expo x \<le> expo y"
proof -
  from assms have x: "x \<noteq> 0" and y: "y \<noteq> 0" by simp_all
  have "2 powi (expo x) \<le> \<bar>x\<bar>" using expo_bounds(1) [OF x] .
  also have "\<dots> \<le> \<bar>y\<bar>" using assms by simp
  also have "\<dots> < 2 powi (expo y + 1)" using expo_bounds(2) [OF y] .
  finally have "(2::real) powi (expo x) < 2 powi (expo y + 1)" .
  then have "expo x < expo y + 1"
    by (rule pow2_less_cancel)
  then show ?thesis by simp
qed

lemma rd_mono_pos:
  assumes "0 < x" "x \<le> y"
  shows "rd x \<le> rd y"
proof -
  let ?ex = "max (expo x - 52) (- 1074)" and ?ey = "max (expo y - 52) (- 1074)"
  from assms have x: "x \<noteq> 0" and y: "y \<noteq> 0" and ypos: "0 < y" by simp_all
  have le: "?ex \<le> ?ey" using expo_mono [OF assms] by simp
  show ?thesis
  proof (cases "?ex = ?ey")
    case True
    have "x / 2 powi ?ey \<le> y / 2 powi ?ey"
      using assms(2) by (simp add: divide_right_mono)
    then have "round_even (x / 2 powi ?ey) \<le> round_even (y / 2 powi ?ey)"
      by (rule round_even_mono)
    then show ?thesis unfolding rd_scaled True
      by (simp add: mult_right_mono)
  next
    case False
    from False le have lt: "?ex < ?ey" by (rule order.not_eq_order_implies_strict)
    have ey: "?ey = expo y - 52" using lt by arith
    have exy: "expo x < expo y" using lt by arith
    let ?B = "(2::real) powi (expo y)"
    have xB: "x \<le> ?B"
    proof -
      have "x < 2 powi (expo x + 1)" using expo_bounds(2) [OF x] assms(1) by simp
      also have "\<dots> \<le> ?B" using exy by (intro power_int_increasing) simp_all
      finally show ?thesis by simp
    qed
    have By: "?B \<le> y" using expo_bounds(1) [OF y] ypos by simp
    have k: "0 \<le> expo y - ?ex" using lt ey by simp
    have "x / 2 powi ?ex \<le> ?B / 2 powi ?ex"
      using xB by (simp add: divide_right_mono)
    also have "?B / 2 powi ?ex = 2 powi (expo y - ?ex)"
      by (simp add: power_int_diff)
    also have "\<dots> = real_of_int (2 ^ nat (expo y - ?ex))"
      using k by (simp add: power_int_nonneg_exp)
    finally have "round_even (x / 2 powi ?ex) \<le> 2 ^ nat (expo y - ?ex)"
      by (rule round_even_le_int)
    then have "real_of_int (round_even (x / 2 powi ?ex)) \<le> real_of_int (2 ^ nat (expo y - ?ex))"
      by linarith
    then have "rd x \<le> real_of_int (2 ^ nat (expo y - ?ex)) * 2 powi ?ex"
      unfolding rd_scaled by (intro mult_right_mono) simp_all
    also have "\<dots> = 2 powi (expo y - ?ex) * 2 powi ?ex"
      using k by (simp add: power_int_nonneg_exp)
    also have "\<dots> = ?B"
      by (simp flip: power_int_add)
    finally have 1: "rd x \<le> ?B" .
    have "real_of_int (2 ^ 52) = ?B / 2 powi ?ey"
      unfolding ey by (simp add: power_int_diff)
    also have "\<dots> \<le> y / 2 powi ?ey"
      using By by (simp add: divide_right_mono)
    finally have "2 ^ 52 \<le> round_even (y / 2 powi ?ey)"
      by (rule round_even_ge_int)
    then have "real_of_int (2 ^ 52) \<le> real_of_int (round_even (y / 2 powi ?ey))"
      by linarith
    then have "real_of_int (2 ^ 52) * 2 powi ?ey \<le> rd y"
      unfolding rd_scaled by (intro mult_right_mono) simp_all
    moreover have "real_of_int (2 ^ 52) * 2 powi ?ey = ?B"
      unfolding ey by (simp add: power_int_diff)
    ultimately have 2: "?B \<le> rd y" by simp
    from 1 2 show ?thesis by simp
  qed
qed

lemma rd_mono: "x \<le> y \<Longrightarrow> rd x \<le> rd y"
proof -
  assume xy: "x \<le> y"
  consider "0 < x" | "x \<le> 0" "0 \<le> y" | "y < 0" by linarith
  then show ?thesis
  proof cases
    case 1
    then show ?thesis using xy by (rule rd_mono_pos)
  next
    case 2
    then show ?thesis using rd_nonpos [of x] rd_nonneg [of y] by simp
  next
    case 3
    then have "0 < - y" "- y \<le> - x" using xy by simp_all
    then have "rd (- y) \<le> rd (- x)" by (rule rd_mono_pos)
    then show ?thesis by (simp add: rd_minus)
  qed
qed

lemma rd_of_int: "\<bar>n\<bar> < 2 ^ 53 \<Longrightarrow> rd (of_int n) = of_int n"
proof (cases "n = 0")
  case True then show ?thesis by simp
next
  case False
  assume b: "\<bar>n\<bar> < 2 ^ 53"
  let ?x = "real_of_int n"
  let ?e = "max (expo ?x - 52) (- 1074)"
  from False have x: "?x \<noteq> 0" by simp
  have "2 powi (expo ?x) \<le> \<bar>?x\<bar>" using expo_bounds(1) [OF x] .
  also have "\<bar>?x\<bar> < 2 ^ 53" using b by (metis of_int_abs of_int_less_numeral_power_cancel_iff)
  finally have "(2::real) powi (expo ?x) < 2 powi 53" by simp
  then have "expo ?x < 53" by (rule pow2_less_cancel)
  then have e: "?e \<le> 0" by simp
  have "?x / 2 powi ?e = ?x * 2 powi (- ?e)"
    by (simp add: power_int_minus field_simps)
  also have "\<dots> = real_of_int (n * 2 ^ nat (- ?e))"
    using e by (simp add: power_int_nonneg_exp)
  finally have "round_even (?x / 2 powi ?e) = n * 2 ^ nat (- ?e)"
    by (simp only: round_even_of_int)
  then have "rd ?x = real_of_int (n * 2 ^ nat (- ?e)) * 2 powi ?e"
    unfolding rd_scaled by simp
  also have "\<dots> = ?x * (2 powi (- ?e) * 2 powi ?e)"
    using e by (simp add: power_int_nonneg_exp)
  also have "\<dots> = ?x"
    by (simp flip: power_int_add)
  finally show ?thesis .
qed


lemma expo_unique:
  assumes "2 powi e \<le> \<bar>x\<bar>" and "\<bar>x\<bar> < 2 powi (e + 1)"
  shows "expo x = e"
proof -
  have "(0::real) < 2 powi e" by simp
  with assms(1) have "0 < \<bar>x\<bar>" by linarith
  then have x: "x \<noteq> 0" by simp
  have "(2::real) powi e < 2 powi (expo x + 1)"
    using assms(1) expo_bounds(2) [OF x] by (rule le_less_trans)
  then have 1: "e < expo x + 1" by (rule pow2_less_cancel)
  have "(2::real) powi (expo x) < 2 powi (e + 1)"
    using expo_bounds(1) [OF x] assms(2) by (rule le_less_trans)
  then have 2: "expo x < e + 1" by (rule pow2_less_cancel)
  from 1 2 show ?thesis by simp
qed

lemma round_even_unique:
  assumes "\<bar>y - of_int m\<bar> < 1 / 2 \<or> \<bar>y - of_int m\<bar> = 1 / 2 \<and> even m"
  shows "round_even y = m"
proof -
  let ?f = "\<lfloor>y\<rfloor>"
  have f: "of_int ?f \<le> y" "y < of_int ?f + 1" by linarith+
  from assms show ?thesis
  proof
    assume a: "\<bar>y - of_int m\<bar> < 1 / 2"
    from round_even_cases [of y] show ?thesis
    proof (elim disjE conjE)
      assume r: "round_even y = ?f" and "y - of_int ?f \<le> 1 / 2"
      with a f have "real_of_int ?f < of_int m + 1" "real_of_int m < of_int ?f + 1" by linarith+
      then have "?f = m" by linarith
      with r show ?thesis by simp
    next
      assume r: "round_even y = ?f + 1" and "1 / 2 \<le> y - of_int ?f"
      with a f have "real_of_int ?f < of_int m" "real_of_int m < of_int ?f + 2" by linarith+
      then have "?f + 1 = m" by linarith
      with r show ?thesis by simp
    qed
  next
    assume a: "\<bar>y - of_int m\<bar> = 1 / 2 \<and> even m"
    then consider "y = of_int m + 1 / 2" | "y = of_int m - 1 / 2" by linarith
    then show ?thesis
    proof cases
      case 1
      then have "?f = m" by linarith
      with 1 a show ?thesis by (simp add: round_even_def Let_def)
    next
      case 2
      then have "?f = m - 1" by linarith
      with 2 a show ?thesis by (simp add: round_even_def Let_def)
    qed
  qed
qed

text \<open>The value of a rounding, from its significand \<open>m\<close> and the exponent \<open>- k\<close> of its last
  place.\<close>

lemma rd_eqI:
  fixes k :: nat
  assumes lo: "2 ^ 52 \<le> \<bar>x\<bar> * 2 ^ k" and hi: "\<bar>x\<bar> * 2 ^ k < 2 ^ 53" and k: "k \<le> 1074"
    and m: "\<bar>x * 2 ^ k - of_int m\<bar> < 1 / 2 \<or> \<bar>x * 2 ^ k - of_int m\<bar> = 1 / 2 \<and> even m"
  shows "rd x = of_int m / 2 ^ k"
proof -
  have p: "(2::real) powi (52 - int k) = 2 ^ 52 / 2 ^ k"
    by (simp add: power_int_diff)
  have q: "(2::real) powi (52 - int k + 1) = 2 ^ 53 / 2 ^ k"
  proof -
    have "52 - int k + 1 = 53 - int k" by simp
    then show ?thesis by (simp add: power_int_diff)
  qed
  have "2 powi (52 - int k) \<le> \<bar>x\<bar>"
    unfolding p using lo by (simp add: field_simps)
  moreover have "\<bar>x\<bar> < 2 powi (52 - int k + 1)"
    unfolding q using hi by (simp add: field_simps)
  ultimately have e: "expo x = 52 - int k" by (rule expo_unique)
  have s: "max (expo x - 52) (- 1074) = - int k"
    using k by (simp add: e)
  have d: "x / 2 powi (- int k) = x * 2 ^ k"
    by (simp add: power_int_minus field_simps)
  have "round_even (x * 2 ^ k) = m"
    using m by (rule round_even_unique)
  then show ?thesis
    unfolding rd_scaled s d by (simp add: power_int_minus field_simps)
qed

lemma rd_numeral [simp]: "numeral n < (2::int) ^ 53 \<Longrightarrow> rd (numeral n) = numeral n"
  using rd_of_int [of "numeral n"] by simp

lemma rd_one [simp]: "rd 1 = 1"
  using rd_of_int [of 1] by simp

lemma rd_neg_numeral [simp]: "numeral n < (2::int) ^ 53 \<Longrightarrow> rd (- numeral n) = - numeral n"
  by (simp add: rd_minus)

lemma rd_neg_one [simp]: "rd (- 1) = - 1"
  by (simp add: rd_minus)

lemmas double_ops = dadd_def dsub_def dmul_def ddiv_def sqr_def


section \<open>The sampling loop of the goal check\<close>

lemma valarray_at_planar:
  assumes "2 \<le> length v"
  shows "valarray_at v 0 = Some (v ! 0)" and "valarray_at v 1 = Some (v ! 1)"
    and "valarray_at v (Suc 0) = Some (v ! 1)"
  using assms by (cases v; auto simp: valarray_at_def)+

lemma running_sum_step:
  "0 \<le> k \<Longrightarrow> ((\<lambda>t. dadd t dt) ^^ nat (k + 1)) t0 = dadd (((\<lambda>t. dadd t dt) ^^ nat k) t0) dt"
  by (simp add: nat_add_distrib)

lemma inGoal_loop_step:
  assumes "2 \<le> length (center this)" "2 \<le> length (at_time traj (dadd time dt))"
    and "i < Sphericalgoal.resolution this"
  shows "inGoal_loop this traj dt i time =
           (if planar_sq_dist (at_time traj (dadd time dt)) (center this) < radius_sqr this
            then Some (True, dadd time dt, this)
            else inGoal_loop this traj dt (i + 1) (dadd time dt))"
  using assms
  by (subst inGoal_loop.simps) (simp add: valarray_at_planar Let_def)

lemma inGoal_loop_exit:
  "\<not> i < Sphericalgoal.resolution this \<Longrightarrow> inGoal_loop this traj dt i time = Some (False, time, this)"
  by (subst inGoal_loop.simps) simp

lemma inGoal_loop_spec:
  "2 \<le> length (center this) \<Longrightarrow> \<forall>t. 2 \<le> length (at_time traj t) \<Longrightarrow>
   \<forall>k. 0 \<le> k \<longrightarrow> T (k + 1) = dadd (T k) dt \<Longrightarrow>
   \<forall>k. hit k \<longleftrightarrow> planar_sq_dist (at_time traj (T k)) (center this) < radius_sqr this \<Longrightarrow>
   0 \<le> i \<Longrightarrow> i \<le> Sphericalgoal.resolution this \<Longrightarrow> time = T i \<Longrightarrow>
    \<exists>b t. inGoal_loop this traj dt i time = Some (b, t, this) \<and>
      (if \<exists>k\<in>{i + 1..Sphericalgoal.resolution this}. hit k
       then b \<and> (\<exists>k\<in>{i + 1..Sphericalgoal.resolution this}.
               hit k \<and> (\<forall>j\<in>{i + 1..<k}. \<not> hit j) \<and> t = T k)
       else \<not> b \<and> t = T (Sphericalgoal.resolution this))"
proof (induction this traj dt i time rule: inGoal_loop.induct)
  case (1 this traj dt i time)
  let ?r = "Sphericalgoal.resolution this"
  note c = "1.prems"(1) and s = "1.prems"(2) and run = "1.prems"(3) and h = "1.prems"(4)
    and i0 = "1.prems"(5)
  show ?case
  proof (cases "i < ?r")
    case False
    with "1.prems" have "i = ?r" by simp
    then show ?thesis using "1.prems"(7) by (auto simp: inGoal_loop_exit)
  next
    case True
    have t': "dadd time dt = T (i + 1)"
      using "1.prems"(7) run i0 by simp
    have hit1: "hit (i + 1) \<longleftrightarrow> planar_sq_dist (at_time traj (dadd time dt)) (center this) < radius_sqr this"
      unfolding t' using h by blast
    have step: "inGoal_loop this traj dt i time =
           (if hit (i + 1) then Some (True, dadd time dt, this)
            else inGoal_loop this traj dt (i + 1) (dadd time dt))"
      unfolding hit1 using c s True by (intro inGoal_loop_step) simp_all
    show ?thesis
    proof (cases "hit (i + 1)")
      case yes: True
      have res: "inGoal_loop this traj dt i time = Some (True, T (i + 1), this)"
        using step yes t' by simp
      have "i + 1 \<in> {i + 1..?r}" using True by simp
      moreover have "\<forall>j\<in>{i + 1..<i + 1}. \<not> hit j" by simp
      ultimately have "\<exists>k\<in>{i + 1..?r}. hit k \<and> (\<forall>j\<in>{i + 1..<k}. \<not> hit j) \<and> T (i + 1) = T k"
        using yes by blast
      moreover from this have "\<exists>k\<in>{i + 1..?r}. hit k" by blast
      ultimately show ?thesis unfolding res by (intro exI [of _ True] exI [of _ "T (i + 1)"]) simp
    next
      case no: False
      have sc: "valarray_at (center this) 0 = Some (center this ! 0)"
               "valarray_at (center this) 1 = Some (center this ! 1)"
               "valarray_at (at_time traj (dadd time dt)) 0 = Some (at_time traj (dadd time dt) ! 0)"
               "valarray_at (at_time traj (dadd time dt)) 1 = Some (at_time traj (dadd time dt) ! 1)"
        using c s by (simp_all add: valarray_at_planar)
      have nh: "\<not> planar_sq_dist (at_time traj (dadd time dt)) (center this) < radius_sqr this"
        using no hit1 by simp
      have le: "i + 1 \<le> ?r" using True by simp
      have i1: "0 \<le> i + 1" using i0 by simp
      from "1.IH" [OF True refl refl sc(3) sc(1) sc(4) sc(2) nh c s run h i1 le t']
      obtain b t where
        res: "inGoal_loop this traj dt (i + 1) (dadd time dt) = Some (b, t, this)"
        and sp: "(if \<exists>k\<in>{i + 1 + 1..?r}. hit k
                 then b \<and> (\<exists>k\<in>{i + 1 + 1..?r}. hit k \<and> (\<forall>j\<in>{i + 1 + 1..<k}. \<not> hit j) \<and> t = T k)
                 else \<not> b \<and> t = T ?r)"
        by blast
      have res': "inGoal_loop this traj dt i time = Some (b, t, this)"
        using step no res by simp
      have ex_eq: "(\<exists>k\<in>{i + 1..?r}. hit k) \<longleftrightarrow> (\<exists>k\<in>{i + 1 + 1..?r}. hit k)"
      proof
        assume "\<exists>k\<in>{i + 1..?r}. hit k"
        then obtain k where k: "k \<in> {i + 1..?r}" "hit k" by blast
        with no have "k \<noteq> i + 1" by auto
        with k show "\<exists>k\<in>{i + 1 + 1..?r}. hit k" by force
      next
        assume "\<exists>k\<in>{i + 1 + 1..?r}. hit k"
        then show "\<exists>k\<in>{i + 1..?r}. hit k" by force
      qed
      have all_eq: "\<forall>j\<in>{i + 1..<k}. \<not> hit j" if "\<forall>j\<in>{i + 1 + 1..<k}. \<not> hit j" for k
      proof
        fix j assume j: "j \<in> {i + 1..<k}"
        show "\<not> hit j"
        proof (cases "j = i + 1")
          case True then show ?thesis using no by simp
        next
          case False
          with j have "j \<in> {i + 1 + 1..<k}" by simp
          with that show ?thesis by blast
        qed
      qed
      show ?thesis
      proof (cases "\<exists>k\<in>{i + 1 + 1..?r}. hit k")
        case ex: True
        with sp obtain k where k: "b" "k \<in> {i + 1 + 1..?r}" "hit k" "\<forall>j\<in>{i + 1 + 1..<k}. \<not> hit j"
          "t = T k" by auto
        from k(2) have k1: "k \<in> {i + 1..?r}" by simp
        from all_eq [OF k(4)] have "\<forall>j\<in>{i + 1..<k}. \<not> hit j" .
        with k k1 have "\<exists>k\<in>{i + 1..?r}. hit k \<and> (\<forall>j\<in>{i + 1..<k}. \<not> hit j) \<and> t = T k"
          by blast
        moreover from this have "\<exists>k\<in>{i + 1..?r}. hit k" by blast
        ultimately show ?thesis unfolding res' using k(1) by (intro exI [of _ b] exI [of _ t]) simp
      next
        case nex: False
        with sp have "\<not> b" "t = T ?r" by auto
        moreover have "\<not> (\<exists>k\<in>{i + 1..?r}. hit k)" using nex ex_eq by blast
        ultimately show ?thesis unfolding res' by (intro exI [of _ b] exI [of _ t]) simp
      qed
    qed
  qed
qed

lemma inGoal_spec:
  assumes c: "2 \<le> length (center this)" and s: "\<forall>t. 2 \<le> length (at_time traj t)"
    and r: "0 \<le> Sphericalgoal.resolution this"
  shows "\<exists>b t. inGoal this traj time = Some (b, t, this) \<and>
      (if \<exists>k\<in>{1..Sphericalgoal.resolution this}.
            planar_sq_dist (at_time traj (sample_time traj (Sphericalgoal.resolution this) k)) (center this) < radius_sqr this
       then b \<and> (\<exists>k\<in>{1..Sphericalgoal.resolution this}.
               planar_sq_dist (at_time traj (sample_time traj (Sphericalgoal.resolution this) k)) (center this) < radius_sqr this
               \<and> (\<forall>j\<in>{1..<k}. \<not> planar_sq_dist (at_time traj (sample_time traj (Sphericalgoal.resolution this) j)) (center this) < radius_sqr this)
               \<and> t = sample_time traj (Sphericalgoal.resolution this) k)
       else \<not> b \<and> t = sample_time traj (Sphericalgoal.resolution this) (Sphericalgoal.resolution this))"
proof -
  let ?r = "Sphericalgoal.resolution this"
  let ?T = "\<lambda>k. sample_time traj ?r k"
  let ?hit = "\<lambda>k. planar_sq_dist (at_time traj (?T k)) (center this) < radius_sqr this"
  have one: "(0::int) + 1 = 1" by simp
  have zero: "(0::int) \<le> 0" by simp
  have start: "initialTime traj = ?T 0"
    by simp
  have run: "\<forall>k. 0 \<le> k \<longrightarrow> ?T (k + 1) = dadd (?T k) (step traj ?r)"
    by (simp add: running_sum_step)
  have hit: "\<forall>k. ?hit k \<longleftrightarrow> ?hit k" by simp
  from inGoal_loop_spec [where hit = ?hit and T = ?T, OF c s run hit zero r start]
  show ?thesis unfolding inGoal_def Let_def one .
qed



section \<open>The sampling loop of the collision check\<close>


lemma collisionFree_loop_exit:
  "\<not> i < PlanarDemoObstacles.resolution this \<Longrightarrow> collisionFree_loop this traj dt i t = Some (True, this)"
  by (subst collisionFree_loop.simps) simp




section \<open>Running sums of a sixth and of a tenth\<close>









lemma step_10: "rd (1 / 10) = 3602879701896397 / 36028797018963968"
  using rd_eqI [of "1 / 10" 56 "7205759403792794"] by simp

lemma running_sum_10_1: "rd (3602879701896397 / 36028797018963968) = 3602879701896397 / 36028797018963968"
  using rd_eqI [of "3602879701896397 / 36028797018963968" 56 "7205759403792794"] by simp

lemma running_sum_10_2: "rd (3602879701896397 / 18014398509481984) = 3602879701896397 / 18014398509481984"
  using rd_eqI [of "3602879701896397 / 18014398509481984" 55 "7205759403792794"] by simp

lemma running_sum_10_3: "rd (10808639105689191 / 36028797018963968) = 1351079888211149 / 4503599627370496"
  using rd_eqI [of "10808639105689191 / 36028797018963968" 54 "5404319552844596"] by simp

lemma running_sum_10_4: "rd (14411518807585589 / 36028797018963968) = 3602879701896397 / 9007199254740992"
  using rd_eqI [of "14411518807585589 / 36028797018963968" 54 "7205759403792794"] by simp

lemma running_sum_10_5: "rd (18014398509481985 / 36028797018963968) = 1 / 2"
  using rd_eqI [of "18014398509481985 / 36028797018963968" 53 "4503599627370496"] by simp

lemma running_sum_10_6: "rd (21617278211378381 / 36028797018963968) = 5404319552844595 / 9007199254740992"
  using rd_eqI [of "21617278211378381 / 36028797018963968" 53 "5404319552844595"] by simp

lemma running_sum_10_7: "rd (25220157913274777 / 36028797018963968) = 3152519739159347 / 4503599627370496"
  using rd_eqI [of "25220157913274777 / 36028797018963968" 53 "6305039478318694"] by simp

lemma running_sum_10_8: "rd (28823037615171173 / 36028797018963968) = 7205759403792793 / 9007199254740992"
  using rd_eqI [of "28823037615171173 / 36028797018963968" 53 "7205759403792793"] by simp

lemma running_sum_10_9: "rd (32425917317067569 / 36028797018963968) = 2026619832316723 / 2251799813685248"
  using rd_eqI [of "32425917317067569 / 36028797018963968" 53 "8106479329266892"] by simp

lemma running_sum_10_10: "rd (36028797018963965 / 36028797018963968) = 9007199254740991 / 9007199254740992"
  using rd_eqI [of "36028797018963965 / 36028797018963968" 53 "9007199254740991"] by simp

lemmas running_sum_10 = step_10 running_sum_10_1 running_sum_10_2 running_sum_10_3 running_sum_10_4 running_sum_10_5 running_sum_10_6 running_sum_10_7 running_sum_10_8 running_sum_10_9 running_sum_10_10

section \<open>The rounding error of the heuristic\<close>

text \<open>
  A planar distance computed with a rounding \<open>rho\<close> of relative error \<open>u\<close> and absolute
  error \<open>eta\<close>, then offset by \<open>R\<close> and clamped: when the exact distance is at most \<open>L + R\<close>,
  the computed value exceeds \<open>L\<close> by a multiple of \<open>u\<close> and of \<open>eta\<close> at most.
\<close>

lemma rounded_distance_bound:
  fixes rho :: "real \<Rightarrow> real" and u eta theta a b R L :: real
  assumes err: "\<And>x. \<bar>rho x - x\<bar> \<le> \<bar>x\<bar> * u + eta"
    and neg: "\<And>x. x \<le> 0 \<Longrightarrow> rho x \<le> 0"
    and pos: "\<And>x. 0 \<le> x \<Longrightarrow> 0 \<le> rho x"
    and u: "0 \<le> u" "u \<le> 1" and eta: "0 \<le> eta" "eta \<le> theta\<^sup>2" and theta: "0 \<le> theta"
    and R: "0 \<le> R" and L: "0 \<le> L" and DL: "sqrt (a\<^sup>2 + b\<^sup>2) \<le> L + R"
  shows "max 0 (rho (rho (sqrt (rho (rho (rho a * rho a) + rho (rho b * rho b)))) - R))
           \<le> (L + R) * (1 + u) ^ 4 - R + (19 * eta + 12 * theta)"
proof -
  define w where "w = 1 + u"
  have w: "1 \<le> w" "w \<le> 2" "0 \<le> w" using u by (simp_all add: w_def)
  have up: "rho x \<le> x * w + eta" if "0 \<le> x" for x
  proof -
    from err [of x] have "rho x - x \<le> \<bar>x\<bar> * u + eta" by linarith
    with that show ?thesis by (simp add: w_def algebra_simps)
  qed
  define a' b' where "a' = rho a" and "b' = rho b"
  define D N where "D = sqrt (a\<^sup>2 + b\<^sup>2)" and "N = sqrt (a'\<^sup>2 + b'\<^sup>2)"
  have D0: "0 \<le> D" and N0: "0 \<le> N" by (simp_all add: D_def N_def)
  have N2: "N * N = a' * a' + b' * b'"
    using real_sqrt_pow2 [of "a'\<^sup>2 + b'\<^sup>2"] by (simp add: N_def power2_eq_square)
  text \<open>The two differences.\<close>
  have sq: "(rho x - x)\<^sup>2 \<le> (\<bar>x\<bar> * u + eta)\<^sup>2" for x
  proof -
    have "\<bar>rho x - x\<bar>\<^sup>2 \<le> (\<bar>x\<bar> * u + eta)\<^sup>2"
      using err [of x] by (intro power_mono) simp_all
    then show ?thesis by simp
  qed
  have f1: "N \<le> D + sqrt ((a' - a)\<^sup>2 + (b' - b)\<^sup>2)"
    using real_sqrt_sum_squares_triangle_ineq [of a "a' - a" b "b' - b"] by (simp add: D_def N_def)
  have f2: "sqrt ((a' - a)\<^sup>2 + (b' - b)\<^sup>2) \<le> sqrt ((\<bar>a\<bar> * u + eta)\<^sup>2 + (\<bar>b\<bar> * u + eta)\<^sup>2)"
    unfolding a'_def b'_def by (intro real_sqrt_le_mono add_mono sq)
  have f3: "sqrt ((\<bar>a\<bar> * u + eta)\<^sup>2 + (\<bar>b\<bar> * u + eta)\<^sup>2)
      \<le> sqrt ((\<bar>a\<bar> * u)\<^sup>2 + (\<bar>b\<bar> * u)\<^sup>2) + sqrt (eta\<^sup>2 + eta\<^sup>2)"
    by (rule real_sqrt_sum_squares_triangle_ineq)
  have f4: "sqrt ((\<bar>a\<bar> * u)\<^sup>2 + (\<bar>b\<bar> * u)\<^sup>2) = D * u"
  proof -
    have "(\<bar>a\<bar> * u)\<^sup>2 + (\<bar>b\<bar> * u)\<^sup>2 = (a\<^sup>2 + b\<^sup>2) * u\<^sup>2"
      by (simp add: power_mult_distrib algebra_simps)
    then show ?thesis
      using u(1) by (simp add: real_sqrt_mult D_def)
  qed
  have f5: "sqrt (eta\<^sup>2 + eta\<^sup>2) \<le> eta + eta"
    using eta(1) by (intro sqrt_sum_squares_le_sum) simp_all
  have f6: "D * w = D + D * u"
    by (simp add: w_def algebra_simps)
  from f1 f2 f3 f4 f5 f6 have n1: "N \<le> D * w + 2 * eta"
    by linarith
  text \<open>The sum of the squares.\<close>
  define q1 q2 S where "q1 = rho (a' * a')" and "q2 = rho (b' * b')" and "S = rho (q1 + q2)"
  have q0: "0 \<le> q1" "0 \<le> q2" by (simp_all add: q1_def q2_def pos)
  have S0: "0 \<le> S" using q0 by (simp add: S_def pos)
  have "q1 \<le> a' * a' * w + eta" "q2 \<le> b' * b' * w + eta"
    unfolding q1_def q2_def by (intro up; simp)+
  then have q12: "q1 + q2 \<le> N * N * w + 2 * eta"
    by (simp add: N2 algebra_simps)
  have "S \<le> (q1 + q2) * w + eta"
    unfolding S_def using q0 by (intro up) simp
  moreover have "(q1 + q2) * w \<le> (N * N * w + 2 * eta) * w"
    using q12 w(3) by (rule mult_right_mono)
  moreover have "eta * w \<le> eta * 2"
    using w(2) eta(1) by (rule mult_left_mono)
  ultimately have s1: "S \<le> (N * w) * (N * w) + 5 * eta"
    by (simp add: algebra_simps)
  text \<open>Its square root.\<close>
  have "5 * eta \<le> (3 * theta)\<^sup>2"
    using eta by (simp add: power_mult_distrib)
  moreover have "0 \<le> 3 * theta" using theta by simp
  ultimately have r5: "sqrt (5 * eta) \<le> 3 * theta"
    by (intro real_le_lsqrt)
  have "sqrt S \<le> sqrt ((N * w) * (N * w) + 5 * eta)"
    using s1 by (rule real_sqrt_le_mono)
  also have "\<dots> \<le> sqrt ((N * w) * (N * w)) + sqrt (5 * eta)"
    using eta(1) by (intro sqrt_add_le_add_sqrt) simp_all
  also have "sqrt ((N * w) * (N * w)) = N * w"
    using N0 w(3) by simp
  finally have s2: "sqrt S \<le> N * w + 3 * theta"
    using r5 by simp
  define d where "d = rho (sqrt S)"
  have "d \<le> sqrt S * w + eta"
    unfolding d_def using S0 by (intro up) simp
  moreover have "sqrt S * w \<le> (N * w + 3 * theta) * w"
    using s2 w(3) by (rule mult_right_mono)
  moreover have "theta * w \<le> theta * 2"
    using w(2) theta by (rule mult_left_mono)
  ultimately have d1: "d \<le> N * (w * w) + 6 * theta + eta"
    by (simp add: algebra_simps)
  have ww: "0 \<le> w * w" "w * w \<le> 4"
    using w mult_mono [of w 2 w 2] by simp_all
  have "N * (w * w) \<le> (D * w + 2 * eta) * (w * w)"
    using n1 ww(1) by (rule mult_right_mono)
  moreover have "eta * (w * w) \<le> eta * 4"
    using ww(2) eta(1) by (rule mult_left_mono)
  ultimately have d2: "d \<le> D * (w * w * w) + 9 * eta + 6 * theta"
    using d1 by (simp add: algebra_simps)
  have www: "0 \<le> w * w * w" using w(3) by simp
  have "D * (w * w * w) \<le> (L + R) * (w * w * w)"
    using DL www unfolding D_def by (rule mult_right_mono)
  with d2 have d3: "d \<le> (L + R) * (w * w * w) + 9 * eta + 6 * theta"
    by simp
  text \<open>The offset and the clamp.\<close>
  have w4: "1 \<le> w * w * w * w"
    using w(1) mult_mono [of 1 w 1 w] mult_mono [of 1 "w * w" 1 "w * w"] by (simp add: mult.assoc)
  have LR: "0 \<le> L + R" using L R by simp
  have "(L + R) * 1 \<le> (L + R) * (w * w * w * w)"
    using w4 LR by (rule mult_left_mono)
  then have rhs0: "0 \<le> (L + R) * (w * w * w * w) - R + (19 * eta + 12 * theta)"
    using L eta(1) theta by simp
  have "rho (d - R) \<le> (L + R) * (w * w * w * w) - R + (19 * eta + 12 * theta)"
  proof (cases "d - R \<le> 0")
    case True
    then have "rho (d - R) \<le> 0" by (rule neg)
    with rhs0 show ?thesis by simp
  next
    case False
    then have "rho (d - R) \<le> (d - R) * w + eta"
      by (intro up) simp
    moreover have "(d - R) * w \<le> ((L + R) * (w * w * w) + 9 * eta + 6 * theta - R) * w"
      using d3 w(3) by (intro mult_right_mono) simp_all
    moreover have "eta * w \<le> eta * 2" "theta * w \<le> theta * 2"
      using w(2) eta(1) theta by (simp_all add: mult_left_mono)
    moreover have "R * 1 \<le> R * w"
      using w(1) R by (rule mult_left_mono)
    ultimately show ?thesis
      by (simp add: algebra_simps)
  qed
  with rhs0 have "max 0 (rho (d - R)) \<le> (L + R) * (w * w * w * w) - R + (19 * eta + 12 * theta)"
    by simp
  moreover have "(1 + u) ^ 4 = w * w * w * w"
    by (simp add: w_def power4_eq_xxxx)
  ultimately show ?thesis
    unfolding d_def S_def q1_def q2_def a'_def b'_def by simp
qed

lemma costToGo_planar:
  assumes "2 \<le> length (goal this)" and "2 \<le> length state"
  shows "costToGo this state
    = Some (max 0 (dsub (dsqrt (planar_sq_dist (goal this) state)) (radius this)))"
  using assms by (simp add: costToGo_def valarray_at_planar)

text \<open>The same bound for binary64: four roundings cost less than \<open>2\<^sup>-\<^sup>5\<^sup>0\<close> of the distance to
  the centre, and the roundings in the subnormal range less than \<open>2\<^sup>-\<^sup>5\<^sup>0\<^sup>0\<close>.\<close>

lemma costToGo_bound:
  assumes R: "0 \<le> R" and L: "0 \<le> L" and DL: "sqrt ((g0 - s0)\<^sup>2 + (g1 - s1)\<^sup>2) \<le> L + R"
  shows "max 0 (dsub (dsqrt (dadd (sqr (dsub g0 s0)) (sqr (dsub g1 s1)))) R)
           \<le> L + (L + R) / 2 ^ 50 + 1 / 2 ^ 500"
proof -
  define u eta theta eps delta :: real
    where "u = 1 / 2 ^ 53" and "eta = 1 / 2 ^ 1075" and "theta = 1 / 2 ^ 537"
      and "eps = 1 / 2 ^ 50" and "delta = 1 / 2 ^ 500"
  have err: "\<bar>rd x - x\<bar> \<le> \<bar>x\<bar> * u + eta" for x
    using rd_error [of x] by (simp add: u_def eta_def)
  have u: "0 \<le> u" "u \<le> 1" by (simp_all add: u_def)
  have eta: "0 \<le> eta" "eta \<le> theta\<^sup>2" and theta: "0 \<le> theta"
    by (simp_all add: eta_def theta_def power_divide flip: power_mult)
  let ?h = "max 0 (rd (rd (sqrt (rd (rd (rd (g0 - s0) * rd (g0 - s0)) + rd (rd (g1 - s1) * rd (g1 - s1))))) - R))"
  have m0: "?h \<le> (L + R) * (1 + u) ^ 4 - R + (19 * eta + 12 * theta)"
    using err rd_nonpos rd_nonneg u eta theta R L DL by (rule rounded_distance_bound)
  have "(1 + u) ^ 4 \<le> 1 + eps"
    by (simp add: u_def eps_def field_simps)
  then have m1: "(L + R) * (1 + u) ^ 4 \<le> (L + R) * (1 + eps)"
    using L R by (intro mult_left_mono) simp_all
  have m2: "19 * eta + 12 * theta \<le> delta"
    by (simp add: eta_def theta_def delta_def field_simps)
  have m3: "(L + R) * (1 + eps) = L + R + (L + R) * eps"
    by (simp add: algebra_simps)
  from m0 m1 m2 m3 have "?h \<le> L + (L + R) * eps + delta"
    by linarith
  then show ?thesis
    unfolding eps_def delta_def dadd_def dsub_def dmul_def dsqrt_def sqr_def by simp
qed


lemma planar_triangle:
  fixes a b c d e f :: real
  shows "sqrt ((a - e)\<^sup>2 + (b - f)\<^sup>2) \<le> sqrt ((a - c)\<^sup>2 + (b - d)\<^sup>2) + sqrt ((c - e)\<^sup>2 + (d - f)\<^sup>2)"
  using real_sqrt_sum_squares_triangle_ineq [of "a - c" "c - e" "b - d" "d - f"] by simp

lemma chord_le_polyline:
  fixes ps :: "(real \<times> real) list"
  shows "ps \<noteq> [] \<Longrightarrow>
    sqrt ((fst (hd ps) - fst (last ps))\<^sup>2 + (snd (hd ps) - snd (last ps))\<^sup>2)
      \<le> sum_list (map (\<lambda>((x, y), (x', y')). sqrt ((x - x')\<^sup>2 + (y - y')\<^sup>2)) (zip ps (tl ps)))"
proof (induction ps rule: induct_list012)
  case 1
  then show ?case by simp
next
  case (2 p)
  then show ?case by simp
next
  case (3 p q ps)
  obtain px py qx qy where p: "p = (px, py)" and q: "q = (qx, qy)"
    by (cases p, cases q) blast
  let ?l = "last (q # ps)"
  have "sqrt ((px - fst ?l)\<^sup>2 + (py - snd ?l)\<^sup>2)
          \<le> sqrt ((px - qx)\<^sup>2 + (py - qy)\<^sup>2) + sqrt ((qx - fst ?l)\<^sup>2 + (qy - snd ?l)\<^sup>2)"
    by (rule planar_triangle)
  also have "sqrt ((qx - fst ?l)\<^sup>2 + (qy - snd ?l)\<^sup>2)
          \<le> sum_list (map (\<lambda>((x, y), (x', y')). sqrt ((x - x')\<^sup>2 + (y - y')\<^sup>2)) (zip (q # ps) (tl (q # ps))))"
    using "3.IH"(2) by (simp add: q)
  finally show ?case by (simp add: p q)
qed

text \<open>The bound of the heuristic by the distance to a point of the goal disk.\<close>

lemma costToGo_disk_bound:
  assumes R: "0 \<le> R" and p: "(px - g0)\<^sup>2 + (py - g1)\<^sup>2 \<le> R\<^sup>2"
    and L: "sqrt ((s0 - px)\<^sup>2 + (s1 - py)\<^sup>2) \<le> L"
  shows "max 0 (dsub (dsqrt (dadd (sqr (dsub g0 s0)) (sqr (dsub g1 s1)))) R)
           \<le> L + (L + R) / 2 ^ 50 + 1 / 2 ^ 500"
proof -
  have "sqrt ((px - g0)\<^sup>2 + (py - g1)\<^sup>2) \<le> sqrt (R\<^sup>2)"
    using p by (simp only: real_sqrt_le_iff)
  then have inner: "sqrt ((px - g0)\<^sup>2 + (py - g1)\<^sup>2) \<le> R"
    using R by simp
  have "sqrt ((s0 - g0)\<^sup>2 + (s1 - g1)\<^sup>2)
          \<le> sqrt ((s0 - px)\<^sup>2 + (s1 - py)\<^sup>2) + sqrt ((px - g0)\<^sup>2 + (py - g1)\<^sup>2)"
    by (rule planar_triangle)
  with inner L have "sqrt ((s0 - g0)\<^sup>2 + (s1 - g1)\<^sup>2) \<le> L + R"
    by linarith
  then have DL: "sqrt ((g0 - s0)\<^sup>2 + (g1 - s1)\<^sup>2) \<le> L + R"
    by (simp add: power2_commute)
  have "0 \<le> sqrt ((s0 - px)\<^sup>2 + (s1 - py)\<^sup>2)" by simp
  with L have L0: "0 \<le> L" by linarith
  from R L0 DL show ?thesis by (rule costToGo_bound)
qed

lemma sqrt_25: "sqrt 25 = 5"
  using real_sqrt_abs [of 5] by simp

lemma sqrt_quarter: "sqrt (1 / 4) = 1 / 2"
  using real_sqrt_abs [of "1 / 2"] by (simp add: power2_eq_square)

lemma rd_half: "rd (1 / 2) = 1 / 2"
  using rd_eqI [of "1 / 2" 53 "4503599627370496"] by simp

lemma rd_nine_halves: "rd (9 / 2) = 9 / 2"
  using rd_eqI [of "9 / 2" 50 "5066549580791808"] by simp

text \<open>The square root of 200 in double arithmetic, and the heuristic of the demo at the
  initial state of the demo.\<close>

lemma dsqrt_200: "dsqrt 200 = 124395540479019 / 8796093022208"
proof -
  have lo: "15922629181314431 / 1125899906842624 < sqrt 200"
    by (rule real_less_rsqrt) (simp add: power2_eq_square)
  have hi: "sqrt 200 < 15922629181314433 / 1125899906842624"
    by (rule real_less_lsqrt) (simp_all add: power2_eq_square)
  define y where "y = sqrt 200"
  have l: "2 ^ 52 \<le> \<bar>y\<bar> * 2 ^ 49" and h: "\<bar>y\<bar> * 2 ^ 49 < 2 ^ 53"
    using lo hi unfolding y_def [symmetric] by simp_all
  have up: "y * 2 ^ 49 - 7961314590657216 < 1 / 2"
    and dn: "- (y * 2 ^ 49 - 7961314590657216) < 1 / 2"
    using lo hi unfolding y_def [symmetric] by simp_all
  have m: "\<bar>y * 2 ^ 49 - 7961314590657216\<bar> < 1 / 2"
    unfolding abs_less_iff using up dn by (intro conjI)
  have "rd y = of_int 7961314590657216 / 2 ^ 49"
    using l h m rd_eqI [of y 49 7961314590657216] by simp
  then show ?thesis
    by (simp add: dsqrt_def y_def)
qed

lemma rd_h0: "rd (119997493967915 / 8796093022208) = 119997493967915 / 8796093022208"
  using rd_eqI [of "119997493967915 / 8796093022208" 49 "7679839613946560"] by simp

lemma heuristic_simps:
  "radius heuristic = 1 / 2" "goal heuristic = [10, 10]"
  by (simp_all add: heuristic_def new_EuclideanHeuristic_def goal_center_def goal_radius_sqr_def
      dsqrt_def sqrt_quarter rd_half)

lemma costToGo_example:
  "costToGo heuristic [7, 6, 0] = Some (9 / 2)"
  "costToGo (new_EuclideanHeuristic [10, 10] 7) [7, 6, 0] = Some 0"
  "costToGo heuristic (x0 alg_params) = Some (119997493967915 / 8796093022208)"
proof -
  show "costToGo heuristic [7, 6, 0] = Some (9 / 2)"
    by (simp add: costToGo_def heuristic_simps valarray_at_def double_ops dsqrt_def sqrt_25 rd_nine_halves)
  show "costToGo (new_EuclideanHeuristic [10, 10] 7) [7, 6, 0] = Some 0"
    by (simp add: costToGo_def new_EuclideanHeuristic_def valarray_at_def double_ops dsqrt_def sqrt_25)
  have "dsub (dsqrt 200) (1 / 2) = 119997493967915 / 8796093022208"
    by (simp add: dsqrt_200 dsub_def rd_h0)
  then show "costToGo heuristic (x0 alg_params) = Some (119997493967915 / 8796093022208)"
    by (simp add: costToGo_def heuristic_simps alg_params_def valarray_at_def dadd_def dmul_def sqr_def
        dsub_def [of 10 0])
qed

section \<open>The control inputs\<close>






section \<open>Evaluation on concrete segments\<close>

text \<open>Steps of 1 from 0 are exact: the running sums are the integers.\<close>

lemma unit_steps:
  "k < 2 ^ 53 \<Longrightarrow> ((\<lambda>t. dadd t 1) ^^ k) 0 = real k"
proof (induction k)
  case 0
  then show ?case by simp
next
  case (Suc k)
  then have k: "k < 2 ^ 53" and IH: "((\<lambda>t. dadd t 1) ^^ k) 0 = real k" by simp_all
  have "\<bar>int k + 1\<bar> < 2 ^ 53" using Suc.prems by simp
  then have "rd (real_of_int (int k + 1)) = real_of_int (int k + 1)" by (rule rd_of_int)
  then have "dadd (real k) 1 = real k + 1" by (simp add: dadd_def)
  then show ?case by (simp add: IH)
qed


lemma x_axis_unit_samples:
  assumes "1 \<le> n" "n < 2 ^ 53" "0 \<le> i" "i < 2 ^ 53"
  shows "sample_time (x_axis_segment 0 n 1) n i = real_of_int i"
proof -
  have "\<bar>n\<bar> < 2 ^ 53" using assms by simp
  then have n: "rd (real_of_int n) = real_of_int n" by (rule rd_of_int)
  have "step (x_axis_segment 0 n 1) n = 1"
    using assms(1) by (simp add: x_axis_segment_def double_ops n)
  moreover have "nat i < 2 ^ 53" using assms(3,4) by (simp add: nat_less_iff)
  ultimately show ?thesis
    using assms(3) by (simp add: unit_steps x_axis_segment_def)
qed

text \<open>The demo's goal, centre \<open>(10, 10)\<close> and ten samples, on the segment from \<open>t = 0\<close> to
  \<open>t = 10\<close> along the \<open>x\<close> axis: no sample is in the goal and \<open>time\<close> ends at 10. The demo's
  obstacles on the same segment: the sample at \<open>(3, 0)\<close> touches the disk around \<open>(3, 2)\<close>.\<close>

lemma demo_goal_example:
  "inGoal demo_goal (x_axis_segment 0 10 1) 7 = Some (False, 10, demo_goal)"
  by (simp add: inGoal_def inGoal_loop.simps demo_goal_def goal_center_def goal_radius_sqr_def
      new_Sphericalgoal_def x_axis_segment_def valarray_at_def double_ops)



section \<open>Theorems\<close>

subsection \<open>Arc-length cost\<close>

text \<open>
  Claim C4. For every trajectory segment, control segment and times \<open>t0\<close>, \<open>tf\<close>,
  \<^verbatim>\<open>ArcLength::cost\<close> equals \<open>numberOfIntervals * intervalLength\<close>, the product in
  double arithmetic. Hence it does not depend on the control argument or on \<open>t0\<close> and
  \<open>tf\<close>, it is non-negative when both factors are, and it is monotone in the duration of
  the segment, because rounding is monotone.
\<close>

theorem ArcLength_cost_is_duration:
  "cost this traj control t0 tf = dmul (real_of_int (numberOfIntervals traj)) (intervalLength traj)
   \<and> cost this traj control t0 tf = cost this traj control' t0' tf'
   \<and> (0 \<le> numberOfIntervals traj \<and> 0 \<le> intervalLength traj \<longrightarrow> 0 \<le> cost this traj control t0 tf)
   \<and> (real_of_int (numberOfIntervals s1) * intervalLength s1
        \<le> real_of_int (numberOfIntervals s2) * intervalLength s2
       \<longrightarrow> cost this s1 control t0 tf \<le> cost this s2 control' t0' tf')"
proof (intro conjI impI)
  show "cost this traj control t0 tf = dmul (real_of_int (numberOfIntervals traj)) (intervalLength traj)"
    by (simp add: cost_def)
  show "cost this traj control t0 tf = cost this traj control' t0' tf'"
    by (simp add: cost_def)
  show "0 \<le> cost this traj control t0 tf"
    if "0 \<le> numberOfIntervals traj \<and> 0 \<le> intervalLength traj"
    using that by (simp add: cost_def dmul_def rd_nonneg)
  show "cost this s1 control t0 tf \<le> cost this s2 control' t0' tf'"
    if "real_of_int (numberOfIntervals s1) * intervalLength s1
            \<le> real_of_int (numberOfIntervals s2) * intervalLength s2"
    using that by (simp add: cost_def dmul_def rd_mono)
qed

theorem ArcLength_cost_is_duration_witness:
  "cost (new_ArcLength 4) (x_axis_segment 0 2 (5 / 2)) (x_axis_segment 0 1 3) 0 5 = 5
   \<and> (0 \<le> numberOfIntervals (x_axis_segment 0 2 (5 / 2)) \<and> 0 \<le> intervalLength (x_axis_segment 0 2 (5 / 2)))
   \<and> 0 \<le> cost (new_ArcLength 4) (x_axis_segment 0 2 (5 / 2)) (x_axis_segment 0 1 3) 0 5
   \<and> real_of_int (numberOfIntervals (x_axis_segment 0 1 3)) * intervalLength (x_axis_segment 0 1 3)
        \<le> real_of_int (numberOfIntervals (x_axis_segment 0 2 (5 / 2))) * intervalLength (x_axis_segment 0 2 (5 / 2))
   \<and> cost (new_ArcLength 4) (x_axis_segment 0 1 3) (x_axis_segment 0 1 3) 0 5
        \<le> cost (new_ArcLength 4) (x_axis_segment 0 2 (5 / 2)) (x_axis_segment 0 2 (5 / 2)) 7 8"
  using ArcLength_cost_is_duration
    [of "new_ArcLength 4" "x_axis_segment 0 2 (5 / 2)" "x_axis_segment 0 1 3" 0 5
        "x_axis_segment 0 1 3" 0 5 "x_axis_segment 0 1 3" "x_axis_segment 0 2 (5 / 2)"]
    ArcLength_cost_is_duration
    [of "new_ArcLength 4" "x_axis_segment 0 2 (5 / 2)" "x_axis_segment 0 1 3" 0 5
        "x_axis_segment 0 2 (5 / 2)" 7 8 "x_axis_segment 0 1 3" "x_axis_segment 0 2 (5 / 2)"]
  by (simp add: x_axis_segment_def double_ops)


subsection \<open>Goal check\<close>





subsection \<open>Collision check\<close>





subsection \<open>Open goal disk, closed obstacle disks\<close>



subsection \<open>The out-parameter of the goal check\<close>

text \<open>
  Claim C9 fails in two ways. With resolution \<open>- 1\<close> or 0 the loop takes no sample:
  \<^verbatim>\<open>inGoal\<close> returns false and leaves \<open>time\<close> at the initial time 0 of the segment, not
  at its end, 5. And with the resolution 10 of the demo's goal, on a segment from 0 to 1
  that stays at the origin, \<^verbatim>\<open>inGoal\<close> returns false and leaves \<open>time\<close> at
  \<open>1 - 2\<^sup>-\<^sup>5\<^sup>3\<close>, the tenth running sum of the double nearest to \<open>1 / 10\<close>: this is not the end
  of the segment, which is 1 in exact and in double arithmetic.
\<close>

theorem inGoal_time_not_end_of_segment_counterexample:
  "inGoal (new_Sphericalgoal (1 / 4) [10, 10] (- 1)) (x_axis_segment 0 5 1) 7
     = Some (False, 0, new_Sphericalgoal (1 / 4) [10, 10] (- 1))
   \<and> (0::real) \<noteq> initialTime (x_axis_segment 0 5 1)
        + real_of_int (numberOfIntervals (x_axis_segment 0 5 1)) * intervalLength (x_axis_segment 0 5 1)
   \<and> inGoal (new_Sphericalgoal (1 / 4) [10, 10] 0) (x_axis_segment 0 5 1) 7
     = Some (False, 0, new_Sphericalgoal (1 / 4) [10, 10] 0)
   \<and> inGoal demo_goal (jump_segment 0 1 1 0 [0, 0, 0] [0, 0, 0] [0, 0, 0]) 7
     = Some (False, 9007199254740991 / 9007199254740992, demo_goal)
   \<and> (9007199254740991 / 9007199254740992 :: real)
       \<noteq> initialTime (jump_segment 0 1 1 0 [0, 0, 0] [0, 0, 0] [0, 0, 0])
        + real_of_int (numberOfIntervals (jump_segment 0 1 1 0 [0, 0, 0] [0, 0, 0] [0, 0, 0]))
          * intervalLength (jump_segment 0 1 1 0 [0, 0, 0] [0, 0, 0] [0, 0, 0])
   \<and> dadd (initialTime (jump_segment 0 1 1 0 [0, 0, 0] [0, 0, 0] [0, 0, 0]))
        (dmul (real_of_int (numberOfIntervals (jump_segment 0 1 1 0 [0, 0, 0] [0, 0, 0] [0, 0, 0])))
           (intervalLength (jump_segment 0 1 1 0 [0, 0, 0] [0, 0, 0] [0, 0, 0]))) = 1"
  by (simp add: inGoal_def inGoal_loop.simps demo_goal_def goal_center_def goal_radius_sqr_def
      new_Sphericalgoal_def x_axis_segment_def jump_segment_def valarray_at_def double_ops running_sum_10)

text \<open>
  Claim C9, amended. \<^verbatim>\<open>inGoal\<close> overwrites its out-parameter whatever the outcome: for
  every object and segment the value it leaves does not depend on the value the caller
  supplied. When the resolution is at least 1 and \<^verbatim>\<open>inGoal\<close> returns false, the
  out-parameter holds the last sampled instant: the initial time advanced \<open>resolution\<close>
  times by the step \<open>(numberOfIntervals * intervalLength) / resolution\<close>, the step and each
  addition rounded to double.
\<close>

theorem inGoal_overwrites_time:
  "inGoal this traj time' = inGoal this traj time
   \<and> (2 \<le> length (center this) \<and> (\<forall>t. 2 \<le> length (at_time traj t))
        \<and> 1 \<le> Sphericalgoal.resolution this
      \<longrightarrow> (\<exists>b t. inGoal this traj time = Some (b, t, this)
            \<and> (\<not> b \<longrightarrow> t = sample_time traj (Sphericalgoal.resolution this) (Sphericalgoal.resolution this))))"
proof (intro conjI impI)
  show "inGoal this traj time' = inGoal this traj time"
    by (simp add: inGoal_def)
next
  let ?r = "Sphericalgoal.resolution this"
  assume a: "2 \<le> length (center this) \<and> (\<forall>t. 2 \<le> length (at_time traj t)) \<and> 1 \<le> ?r"
  then have c: "2 \<le> length (center this)" and s: "\<forall>t. 2 \<le> length (at_time traj t)"
    and r1: "1 \<le> ?r" by simp_all
  have r: "0 \<le> ?r" using r1 by simp
  from inGoal_spec [OF c s r, of time] obtain b t where
    res: "inGoal this traj time = Some (b, t, this)"
    and f: "\<not> b \<longrightarrow> t = sample_time traj ?r ?r"
    by (metis (no_types, lifting))
  then show "\<exists>b t. inGoal this traj time = Some (b, t, this)
            \<and> (\<not> b \<longrightarrow> t = sample_time traj ?r ?r)"
    by blast
qed

theorem inGoal_overwrites_time_witness:
  "2 \<le> length (center demo_goal) \<and> (\<forall>t. 2 \<le> length (at_time (x_axis_segment 0 10 1) t))
   \<and> 1 \<le> Sphericalgoal.resolution demo_goal
   \<and> inGoal demo_goal (x_axis_segment 0 10 1) 7 = Some (False, 10, demo_goal)
   \<and> inGoal demo_goal (x_axis_segment 0 10 1) 0 = Some (False, 10, demo_goal)
   \<and> sample_time (x_axis_segment 0 10 1) (Sphericalgoal.resolution demo_goal)
        (Sphericalgoal.resolution demo_goal) = 10
   \<and> (10::real) \<noteq> 7"
proof -
  have r10: "Sphericalgoal.resolution demo_goal = 10"
    by (simp add: demo_goal_def new_Sphericalgoal_def)
  have h: "2 \<le> length (center demo_goal) \<and> (\<forall>t. 2 \<le> length (at_time (x_axis_segment 0 10 1) t))
      \<and> 1 \<le> Sphericalgoal.resolution demo_goal"
    by (simp add: demo_goal_def goal_center_def new_Sphericalgoal_def x_axis_segment_def)
  have e: "sample_time (x_axis_segment 0 10 1) (Sphericalgoal.resolution demo_goal)
        (Sphericalgoal.resolution demo_goal) = 10"
    unfolding r10 using x_axis_unit_samples [of 10 10] by simp
  have never: "\<exists>t. inGoal demo_goal (x_axis_segment 0 10 1) 7 = Some (False, t, demo_goal)"
    using demo_goal_example by simp
  note t = inGoal_overwrites_time [of demo_goal "x_axis_segment 0 10 1" 0 7]
  from t h have "\<exists>b t. inGoal demo_goal (x_axis_segment 0 10 1) 7 = Some (b, t, demo_goal)
      \<and> (\<not> b \<longrightarrow> t = sample_time (x_axis_segment 0 10 1) (Sphericalgoal.resolution demo_goal)
                         (Sphericalgoal.resolution demo_goal))"
    by blast
  with never have v: "inGoal demo_goal (x_axis_segment 0 10 1) 7 = Some (False, 10, demo_goal)"
    unfolding e by auto
  with t have "inGoal demo_goal (x_axis_segment 0 10 1) 0 = Some (False, 10, demo_goal)"
    by simp
  with h v e show ?thesis by (intro conjI) simp_all
qed

subsection \<open>Resolution zero or negative\<close>

text \<open>
  Claim C10. With a resolution \<open>r \<le> 0\<close> the loop body is never run: for every segment
  \<^verbatim>\<open>inGoal\<close> returns false, with \<open>time\<close> at the initial time, and \<^verbatim>\<open>collisionFree\<close>
  returns true. No state is read, so nothing is assumed about the vectors. The step
  \<open>dt\<close> is computed and not used: the loops give these results for every value of it.
\<close>

theorem nonpositive_resolution_never_samples:
  assumes "r \<le> 0"
  shows "inGoal (new_Sphericalgoal rho c r) traj time = Some (False, initialTime traj, new_Sphericalgoal rho c r)
     \<and> collisionFree (new_PlanarDemoObstacles r) traj = Some (True, new_PlanarDemoObstacles r)
     \<and> (\<forall>dt. inGoal_loop (new_Sphericalgoal rho c r) traj dt 0 (initialTime traj)
                = Some (False, initialTime traj, new_Sphericalgoal rho c r))
     \<and> (\<forall>dt. collisionFree_loop (new_PlanarDemoObstacles r) traj dt 0 (initialTime traj)
                = Some (True, new_PlanarDemoObstacles r))"
proof -
  have g: "\<not> 0 < Sphericalgoal.resolution (new_Sphericalgoal rho c r)"
    using assms by (simp add: new_Sphericalgoal_def)
  have o: "\<not> 0 < PlanarDemoObstacles.resolution (new_PlanarDemoObstacles r)"
    using assms by (simp add: new_PlanarDemoObstacles_def)
  show ?thesis
    by (simp add: inGoal_def collisionFree_def inGoal_loop_exit [OF g] collisionFree_loop_exit [OF o])
qed

theorem nonpositive_resolution_never_samples_witness:
  "(0::int) \<le> 0
   \<and> inGoal (new_Sphericalgoal (1 / 4) [3, 0] 0) (x_axis_segment 0 5 1) 7
        = Some (False, 0, new_Sphericalgoal (1 / 4) [3, 0] 0)
   \<and> collisionFree (new_PlanarDemoObstacles 0) (x_axis_segment 0 5 1) = Some (True, new_PlanarDemoObstacles 0)"
proof -
  have h: "(0::int) \<le> 0" by simp
  from nonpositive_resolution_never_samples [OF h, of "1 / 4" "[3, 0]" "x_axis_segment 0 5 1" 7]
  show ?thesis by (simp add: x_axis_segment_def)
qed


subsection \<open>Heuristic\<close>

text \<open>
  Claim C7. For every state vector of dimension at least 2, \<^verbatim>\<open>costToGo\<close> returns
  \<open>max 0 (sqrt ((goal[0] - s[0])\<^sup>2 + (goal[1] - s[1])\<^sup>2) - radius)\<close>, evaluated in double
  arithmetic, which is never negative, also for a state strictly inside the goal disk.
  The goal vector has its two planar components.
\<close>

theorem costToGo_nonnegative:
  assumes "2 \<le> length s" and "2 \<le> length (goal this)"
  shows "\<exists>h. costToGo this s = Some h
     \<and> h = max 0 (dsub (dsqrt (dadd (sqr (dsub (goal this ! 0) (s ! 0))) (sqr (dsub (goal this ! 1) (s ! 1)))))
                     (radius this))
     \<and> 0 \<le> h"
  using costToGo_planar [OF assms(2,1)] by simp

theorem costToGo_nonnegative_witness:
  "2 \<le> length [7, 6, 0::real] \<and> 2 \<le> length (goal (new_EuclideanHeuristic [10, 10] 7))
   \<and> costToGo (new_EuclideanHeuristic [10, 10] 7) [7, 6, 0] = Some 0
   \<and> \<not> 0 \<le> dsub (dsqrt (dadd (sqr (dsub 10 7)) (sqr (dsub 10 6)))) 7
   \<and> \<not> 0 \<le> sqrt ((10 - 7)\<^sup>2 + (10 - 6)\<^sup>2) - (7::real)"
proof -
  have h1: "2 \<le> length [7, 6, 0::real]" by simp
  have h2: "2 \<le> length (goal (new_EuclideanHeuristic [10, 10] 7))"
    by (simp add: new_EuclideanHeuristic_def)
  have s: "sqrt ((10 - 7)\<^sup>2 + (10 - 6)\<^sup>2) = (5::real)"
    using sqrt_25 by (simp add: power2_eq_square)
  have d: "dsub (dsqrt (dadd (sqr (dsub 10 7)) (sqr (dsub 10 6)))) 7 = - 2"
    by (simp add: double_ops dsqrt_def sqrt_25)
  from costToGo_nonnegative [OF h1 h2]
  have "costToGo (new_EuclideanHeuristic [10, 10] 7) [7, 6, 0] = Some 0"
    using d by (simp add: new_EuclideanHeuristic_def)
  with h1 h2 s d show ?thesis by simp
qed

text \<open>
  Claim C3 fails in two ways. With the radius \<open>- 1\<close> the heuristic is not admissible: at
  the goal centre it is 1, while the centre itself satisfies the membership test of the
  goal disk, at distance 0. And with the radius \<open>1 / 2\<close> of the demo the rounding breaks
  the bound: at the initial state \<open>(0, 0)\<close> of the demo the heuristic is
  \<open>119997493967915 / 2\<^sup>4\<^sup>3\<close>, the square root of 200 rounded up to a double, less \<open>1 / 2\<close>;
  this is more than the distance from \<open>(0, 0)\<close> to the point \<open>(p, p)\<close> of the goal disk with
  \<open>p = 10 - 796131459065721 / 2\<^sup>5\<^sup>1\<close>.
\<close>

theorem costToGo_not_admissible_counterexample:
  "costToGo (new_EuclideanHeuristic [10, 10] (- 1)) [10, 10, 0] = Some 1
   \<and> ((10::real) - 10)\<^sup>2 + (10 - 10)\<^sup>2 \<le> (- 1)\<^sup>2
   \<and> \<not> (1::real) \<le> sqrt ((10 - 10)\<^sup>2 + (10 - 10)\<^sup>2)
   \<and> goal heuristic = [10, 10] \<and> radius heuristic = 1 / 2
   \<and> x0 alg_params ! 0 = 0 \<and> x0 alg_params ! 1 = 0
   \<and> costToGo heuristic (x0 alg_params) = Some (119997493967915 / 8796093022208)
   \<and> ((10 - 796131459065721 / 2251799813685248 :: real) - 10)\<^sup>2
        + ((10 - 796131459065721 / 2251799813685248) - 10)\<^sup>2 \<le> (1 / 2)\<^sup>2
   \<and> \<not> (119997493967915 / 8796093022208 :: real)
        \<le> sqrt ((0 - (10 - 796131459065721 / 2251799813685248))\<^sup>2
                 + (0 - (10 - 796131459065721 / 2251799813685248))\<^sup>2)"
proof -
  have 1: "costToGo (new_EuclideanHeuristic [10, 10] (- 1)) [10, 10, 0] = Some 1"
    by (simp add: costToGo_def new_EuclideanHeuristic_def valarray_at_def double_ops dsqrt_def)
  have 2: "((10::real) - 10)\<^sup>2 + (10 - 10)\<^sup>2 \<le> (- 1)\<^sup>2"
    and 3: "\<not> (1::real) \<le> sqrt ((10 - 10)\<^sup>2 + (10 - 10)\<^sup>2)"
    by simp_all
  have 4: "x0 alg_params ! 0 = 0" "x0 alg_params ! 1 = 0"
    by (simp_all add: alg_params_def)
  have 5: "((10 - 796131459065721 / 2251799813685248 :: real) - 10)\<^sup>2
        + ((10 - 796131459065721 / 2251799813685248) - 10)\<^sup>2 \<le> (1 / 2)\<^sup>2"
    by (simp add: power2_eq_square)
  have "sqrt ((0 - (10 - 796131459065721 / 2251799813685248))\<^sup>2
                 + (0 - (10 - 796131459065721 / 2251799813685248))\<^sup>2)
          < (119997493967915 / 8796093022208 :: real)"
    by (rule real_less_lsqrt) (simp_all add: power2_eq_square)
  then have 6: "\<not> (119997493967915 / 8796093022208 :: real)
        \<le> sqrt ((0 - (10 - 796131459065721 / 2251799813685248))\<^sup>2
                 + (0 - (10 - 796131459065721 / 2251799813685248))\<^sup>2)"
    by (simp only: not_le)
  from 1 2 3 heuristic_simps(2) heuristic_simps(1) 4 costToGo_example(3) 5 6
  show ?thesis by (intro conjI)
qed

text \<open>
  Claim C3, amended. For a radius that is not negative the Euclidean heuristic is
  admissible with respect to arc length up to the rounding of its five operations:
  \<^verbatim>\<open>costToGo\<close> of a state \<open>s\<close> is \<open>max 0 (\<parallel>(s[0], s[1]) - centre\<parallel> - radius)\<close> evaluated in
  double arithmetic, and for every planar point \<open>(px, py)\<close> of the goal disk, at squared
  distance at most \<open>radius\<^sup>2\<close> from the goal centre, it exceeds the Euclidean distance \<open>L\<close>
  from \<open>(s[0], s[1])\<close> to \<open>(px, py)\<close> by at most \<open>(L + radius) / 2\<^sup>5\<^sup>0 + 2\<^sup>-\<^sup>5\<^sup>0\<^sup>0\<close>. The same
  holds with the length of any polygonal path from \<open>s\<close> to a point of the disk, the sum of
  the lengths of its legs, in place of \<open>L\<close>; the length of a curve is the least upper
  bound of the lengths of the polygonal paths inscribed in it. The coordinates of \<open>s\<close>
  differ from those of the centre by \<open>2\<^sup>5\<^sup>0\<^sup>0\<close> at most, and the radius is at most \<open>2\<^sup>5\<^sup>0\<^sup>0\<close>, so
  that no operation exceeds the largest double.
\<close>

theorem costToGo_admissible:
  assumes "0 \<le> radius this" and "2 \<le> length s" and "2 \<le> length (goal this)"
    and "\<bar>goal this ! 0 - s ! 0\<bar> \<le> 2 ^ 500" and "\<bar>goal this ! 1 - s ! 1\<bar> \<le> 2 ^ 500"
    and "radius this \<le> 2 ^ 500"
  shows "\<exists>h. costToGo this s = Some h
     \<and> h = max 0 (dsub (dsqrt (planar_sq_dist (goal this) s)) (radius this))
     \<and> (\<forall>px py. (px - goal this ! 0)\<^sup>2 + (py - goal this ! 1)\<^sup>2 \<le> (radius this)\<^sup>2
           \<longrightarrow> h \<le> sqrt ((s ! 0 - px)\<^sup>2 + (s ! 1 - py)\<^sup>2)
                    + (sqrt ((s ! 0 - px)\<^sup>2 + (s ! 1 - py)\<^sup>2) + radius this) / 2 ^ 50 + 1 / 2 ^ 500)
     \<and> (\<forall>ps. ps \<noteq> [] \<and> hd ps = (s ! 0, s ! 1)
             \<and> (fst (last ps) - goal this ! 0)\<^sup>2 + (snd (last ps) - goal this ! 1)\<^sup>2 \<le> (radius this)\<^sup>2
           \<longrightarrow> h \<le> sum_list (map (\<lambda>((x, y), (x', y')). sqrt ((x - x')\<^sup>2 + (y - y')\<^sup>2)) (zip ps (tl ps)))
                    + (sum_list (map (\<lambda>((x, y), (x', y')). sqrt ((x - x')\<^sup>2 + (y - y')\<^sup>2)) (zip ps (tl ps)))
                       + radius this) / 2 ^ 50 + 1 / 2 ^ 500)"
proof -
  let ?h = "max 0 (dsub (dsqrt (planar_sq_dist (goal this) s)) (radius this))"
  have res: "costToGo this s = Some ?h"
    using costToGo_planar [OF assms(3,2)] .
  have disk: "?h \<le> L + (L + radius this) / 2 ^ 50 + 1 / 2 ^ 500"
    if p: "(px - goal this ! 0)\<^sup>2 + (py - goal this ! 1)\<^sup>2 \<le> (radius this)\<^sup>2"
      and L: "sqrt ((s ! 0 - px)\<^sup>2 + (s ! 1 - py)\<^sup>2) \<le> L" for px py L
    using assms(1) p L by (rule costToGo_disk_bound)
  have path: "?h \<le> sum_list (map (\<lambda>((x, y), (x', y')). sqrt ((x - x')\<^sup>2 + (y - y')\<^sup>2)) (zip ps (tl ps)))
                    + (sum_list (map (\<lambda>((x, y), (x', y')). sqrt ((x - x')\<^sup>2 + (y - y')\<^sup>2)) (zip ps (tl ps)))
                       + radius this) / 2 ^ 50 + 1 / 2 ^ 500"
    if ps: "ps \<noteq> [] \<and> hd ps = (s ! 0, s ! 1)
             \<and> (fst (last ps) - goal this ! 0)\<^sup>2 + (snd (last ps) - goal this ! 1)\<^sup>2 \<le> (radius this)\<^sup>2"
    for ps
  proof -
    have "sqrt ((s ! 0 - fst (last ps))\<^sup>2 + (s ! 1 - snd (last ps))\<^sup>2)
        \<le> sum_list (map (\<lambda>((x, y), (x', y')). sqrt ((x - x')\<^sup>2 + (y - y')\<^sup>2)) (zip ps (tl ps)))"
      using chord_le_polyline [of ps] ps by simp
    moreover from ps have "(fst (last ps) - goal this ! 0)\<^sup>2 + (snd (last ps) - goal this ! 1)\<^sup>2 \<le> (radius this)\<^sup>2"
      by simp
    ultimately show ?thesis by (intro disk)
  qed
  show ?thesis
  proof (intro exI [of _ ?h] conjI allI impI)
    show "costToGo this s = Some ?h" by (rule res)
    show "?h = ?h" by (rule refl)
    show "?h \<le> sqrt ((s ! 0 - px)\<^sup>2 + (s ! 1 - py)\<^sup>2)
                    + (sqrt ((s ! 0 - px)\<^sup>2 + (s ! 1 - py)\<^sup>2) + radius this) / 2 ^ 50 + 1 / 2 ^ 500"
      if "(px - goal this ! 0)\<^sup>2 + (py - goal this ! 1)\<^sup>2 \<le> (radius this)\<^sup>2" for px py
      by (rule disk [OF that order_refl])
    show "?h \<le> sum_list (map (\<lambda>((x, y), (x', y')). sqrt ((x - x')\<^sup>2 + (y - y')\<^sup>2)) (zip ps (tl ps)))
                    + (sum_list (map (\<lambda>((x, y), (x', y')). sqrt ((x - x')\<^sup>2 + (y - y')\<^sup>2)) (zip ps (tl ps)))
                       + radius this) / 2 ^ 50 + 1 / 2 ^ 500"
      if "ps \<noteq> [] \<and> hd ps = (s ! 0, s ! 1)
             \<and> (fst (last ps) - goal this ! 0)\<^sup>2 + (snd (last ps) - goal this ! 1)\<^sup>2 \<le> (radius this)\<^sup>2"
      for ps
      using that by (rule path)
  qed
qed

theorem costToGo_admissible_witness:
  "0 \<le> radius heuristic \<and> 2 \<le> length [7, 6, 0::real] \<and> 2 \<le> length (goal heuristic)
   \<and> \<bar>goal heuristic ! 0 - [7, 6, 0] ! 0\<bar> \<le> 2 ^ 500 \<and> \<bar>goal heuristic ! 1 - [7, 6, 0] ! 1\<bar> \<le> 2 ^ 500
   \<and> radius heuristic \<le> 2 ^ 500
   \<and> (10 - goal heuristic ! 0)\<^sup>2 + (10 - goal heuristic ! 1)\<^sup>2 \<le> (radius heuristic)\<^sup>2
   \<and> costToGo heuristic [7, 6, 0] = Some (9 / 2)
   \<and> (9 / 2 :: real) \<le> sqrt ((7 - 10)\<^sup>2 + (6 - 10)\<^sup>2)
        + (sqrt ((7 - 10)\<^sup>2 + (6 - 10)\<^sup>2) + radius heuristic) / 2 ^ 50 + 1 / 2 ^ 500
   \<and> (9 / 2 :: real) \<le> sum_list (map (\<lambda>((x, y), (x', y')). sqrt ((x - x')\<^sup>2 + (y - y')\<^sup>2))
                              (zip [(7, 6), (7, 10), (10, 10)] (tl [(7, 6), (7, 10), (10, 10)])))
        + (sum_list (map (\<lambda>((x, y), (x', y')). sqrt ((x - x')\<^sup>2 + (y - y')\<^sup>2))
                              (zip [(7, 6), (7, 10), (10, 10)] (tl [(7, 6), (7, 10), (10, 10)])))
           + radius heuristic) / 2 ^ 50 + 1 / 2 ^ 500"
proof -
  note r = heuristic_simps(1) and g = heuristic_simps(2)
  have h1: "0 \<le> radius heuristic" and h3: "2 \<le> length (goal heuristic)"
    and h4: "(10 - goal heuristic ! 0)\<^sup>2 + (10 - goal heuristic ! 1)\<^sup>2 \<le> (radius heuristic)\<^sup>2"
    and h6: "\<bar>goal heuristic ! 0 - [7, 6, 0] ! 0\<bar> \<le> 2 ^ 500" "\<bar>goal heuristic ! 1 - [7, 6, 0] ! 1\<bar> \<le> 2 ^ 500"
      "radius heuristic \<le> 2 ^ 500"
    by (simp_all add: r g)
  have h2: "2 \<le> length [7, 6, 0::real]" by simp
  let ?ps = "[(7, 6), (7, 10), (10, 10::real)] :: (real \<times> real) list"
  let ?P = "sum_list (map (\<lambda>((x, y), (x', y')). sqrt ((x - x')\<^sup>2 + (y - y')\<^sup>2)) (zip ?ps (tl ?ps)))"
  let ?L = "sqrt (((7::real) - 10)\<^sup>2 + (6 - 10)\<^sup>2)"
  have h5: "?ps \<noteq> [] \<and> hd ?ps = ([7, 6, 0::real] ! 0, [7, 6, 0::real] ! 1)
      \<and> (fst (last ?ps) - goal heuristic ! 0)\<^sup>2 + (snd (last ?ps) - goal heuristic ! 1)\<^sup>2 \<le> (radius heuristic)\<^sup>2"
    by (simp add: r g)
  from costToGo_admissible [OF h1 h2 h3 h6]
  obtain h where v: "costToGo heuristic [7, 6, 0] = Some h"
    and d: "\<forall>px py. (px - goal heuristic ! 0)\<^sup>2 + (py - goal heuristic ! 1)\<^sup>2 \<le> (radius heuristic)\<^sup>2
           \<longrightarrow> h \<le> sqrt (([7, 6, 0] ! 0 - px)\<^sup>2 + ([7, 6, 0] ! 1 - py)\<^sup>2)
                  + (sqrt (([7, 6, 0] ! 0 - px)\<^sup>2 + ([7, 6, 0] ! 1 - py)\<^sup>2) + radius heuristic) / 2 ^ 50
                  + 1 / 2 ^ 500"
    and p: "\<forall>ps. ps \<noteq> [] \<and> hd ps = ([7, 6, 0] ! 0, [7, 6, 0] ! 1)
             \<and> (fst (last ps) - goal heuristic ! 0)\<^sup>2 + (snd (last ps) - goal heuristic ! 1)\<^sup>2 \<le> (radius heuristic)\<^sup>2
           \<longrightarrow> h \<le> sum_list (map (\<lambda>((x, y), (x', y')). sqrt ((x - x')\<^sup>2 + (y - y')\<^sup>2)) (zip ps (tl ps)))
                  + (sum_list (map (\<lambda>((x, y), (x', y')). sqrt ((x - x')\<^sup>2 + (y - y')\<^sup>2)) (zip ps (tl ps)))
                     + radius heuristic) / 2 ^ 50 + 1 / 2 ^ 500"
    by (elim exE conjE)
  have hv: "h = 9 / 2"
    using v by (simp add: costToGo_example(1))
  from d h4 have "h \<le> sqrt (([7, 6, 0] ! 0 - 10)\<^sup>2 + ([7, 6, 0] ! 1 - 10)\<^sup>2)
                  + (sqrt (([7, 6, 0] ! 0 - 10)\<^sup>2 + ([7, 6, 0] ! 1 - 10)\<^sup>2) + radius heuristic) / 2 ^ 50
                  + 1 / 2 ^ 500"
    by blast
  then have 1: "(9 / 2 :: real) \<le> ?L + (?L + radius heuristic) / 2 ^ 50 + 1 / 2 ^ 500"
    unfolding hv by simp
  from p h5 have 2: "(9 / 2 :: real) \<le> ?P + (?P + radius heuristic) / 2 ^ 50 + 1 / 2 ^ 500"
    unfolding hv by blast
  from v hv have 3: "costToGo heuristic [7, 6, 0] = Some (9 / 2)" by simp
  from h1 h2 h3 h6 h4 3 1 2 show ?thesis by (intro conjI)
qed

subsection \<open>Control inputs\<close>





end
